theory Spec2Isabelle
  imports Main "HOL-Library.Word"
begin

unbundle bit_operations_syntax

section \<open>Common vocabulary of the transports\<close>

text \<open>
  Every transport exposes three optional callbacks (\<open>onmessage\<close>, \<open>onerror\<close>, \<open>onclose\<close>).
  The model records, in order, each point at which a transport invokes one of them
  (\<open>this.onmessage?.(m)\<close>, \<open>this.onerror?.(e)\<close>, \<open>this.onclose?.()\<close>); the handlers
  themselves belong to the upper layer and are taken to return normally.
\<close>

datatype error =
    Error string
  | UnauthorizedError "string option"
  | SseError nat "string option"
  | PostError nat "string option"
  | External string string

text \<open>\<open>PostError status text\<close> is the \<open>Error\<close> with the message
  \<open>Error POSTing to endpoint (HTTP status): text\<close>; \<open>External name message\<close> is an error
  thrown by the platform or by a collaborator.\<close>

datatype 'm callback = OnMessage 'm | OnError error | OnClose

definition nl :: char where
  "nl = CHR 0x0A"

definition startsWith :: "string \<Rightarrow> string \<Rightarrow> bool" where
  "startsWith s p = (take (length p) s = p)"

section \<open>Process environment of the stdio client (client/stdio.ts)\<close>

type_synonym env = "string \<rightharpoonup> string"

definition DEFAULT_INHERITED_ENV_VARS :: "bool \<Rightarrow> string \<Rightarrow> string list" where
  "DEFAULT_INHERITED_ENV_VARS isNode platform =
     (if isNode \<and> platform = ''win32''
      then [''APPDATA'', ''HOMEDRIVE'', ''HOMEPATH'', ''LOCALAPPDATA'', ''PATH'',
            ''PROCESSOR_ARCHITECTURE'', ''SYSTEMDRIVE'', ''SYSTEMROOT'', ''TEMP'',
            ''USERNAME'', ''USERPROFILE'', ''PROGRAMFILES'']
      else [''HOME'', ''LOGNAME'', ''PATH'', ''SHELL'', ''TERM'', ''USER''])"

text \<open>The \<open>for (const key of DEFAULT_INHERITED_ENV_VARS)\<close> loop of \<open>getDefaultEnvironment\<close>;
  both \<open>continue\<close> branches leave \<open>env\<close> as it is.\<close>

fun inherit_loop :: "env \<Rightarrow> string list \<Rightarrow> env \<Rightarrow> env" where
  "inherit_loop processEnv [] env = env"
| "inherit_loop processEnv (key # keys) env =
     (case processEnv key of
        None \<Rightarrow> inherit_loop processEnv keys env
      | Some v \<Rightarrow>
          if startsWith v ''()'' then inherit_loop processEnv keys env
          else inherit_loop processEnv keys (env(key \<mapsto> v)))"

definition getDefaultEnvironment :: "bool \<Rightarrow> string \<Rightarrow> env \<Rightarrow> env" where
  "getDefaultEnvironment isNode platform processEnv =
     (if \<not> isNode then Map.empty
      else inherit_loop processEnv (DEFAULT_INHERITED_ENV_VARS isNode platform) Map.empty)"

record StdioServerParameters =
  command :: string
  args :: "string list option"
  env :: "env option"
  stderr :: "string option"
  cwd :: "string option"

record SpawnOptions =
  opt_env :: env
  opt_stdio :: "string list"
  opt_shell :: bool
  opt_windowsHide :: bool
  opt_cwd :: "string option"

text \<open>The object spread \<open>{...getDefaultEnvironment(), ...this._serverParams.env}\<close>: the keys of the
  second object overwrite those of the first; spreading \<open>undefined\<close> adds nothing.\<close>

definition spawn_env :: "bool \<Rightarrow> string \<Rightarrow> env \<Rightarrow> StdioServerParameters \<Rightarrow> env" where
  "spawn_env isNode platform processEnv params =
     getDefaultEnvironment isNode platform processEnv
       ++ (case env params of None \<Rightarrow> Map.empty | Some e \<Rightarrow> e)"

text \<open>The call \<open>this._spawn(command, args ?? [], options)\<close> made by
  \<open>StdioClientTransport.start\<close>; \<open>started\<close> stands for \<open>this._process\<close> being set and
  \<open>isElectron\<close> for the result of \<open>isElectron()\<close>.\<close>

definition StdioClientTransport_start ::
  "bool \<Rightarrow> string \<Rightarrow> bool \<Rightarrow> env \<Rightarrow> bool \<Rightarrow> StdioServerParameters
     \<Rightarrow> error + (string \<times> string list \<times> SpawnOptions)" where
  "StdioClientTransport_start isNode platform isElectron processEnv started params =
     (if started then
        Inl (Error ''StdioClientTransport already started! If using Client class, note that connect() calls start() automatically.'')
      else
        Inr (command params,
             (case args params of None \<Rightarrow> [] | Some a \<Rightarrow> a),
             \<lparr> opt_env = spawn_env isNode platform processEnv params,
               opt_stdio = [''pipe'', ''pipe'',
                            (case stderr params of None \<Rightarrow> ''inherit'' | Some s \<Rightarrow> s)],
               opt_shell = False,
               opt_windowsHide = (platform = ''win32'' \<and> isElectron),
               opt_cwd = cwd params \<rparr>))"

section \<open>Line reassembly of the stdio transports (server/stdio.ts, client/stdio.ts)\<close>

text \<open>
  Modelled from the spec: the \<open>ReadBuffer\<close> class of \<open>shared/stdio.js\<close>, which both stdio
  transports import and which is not among the sources. Following section 4.2 of the
  specification, \<open>append\<close> concatenates the chunk to the buffer; \<open>readMessage\<close> looks for the
  newline delimiter and, when there is none, answers "no message yet" (\<open>null\<close>) and leaves the
  buffer alone; otherwise it removes the delimited slice together with its delimiter and
  decodes the slice, so that a slice that fails to decode has left the buffer when the
  exception is thrown. \<open>clear\<close> empties the buffer. The decoder \<open>deserializeMessage\<close> (JSON
  parsing followed by schema validation) is a parameter: \<open>Inl\<close> is the error it throws.
\<close>

type_synonym ReadBuffer = string

definition ReadBuffer_append :: "ReadBuffer \<Rightarrow> string \<Rightarrow> ReadBuffer" where
  "ReadBuffer_append buf chunk = buf @ chunk"

definition ReadBuffer_clear :: "ReadBuffer \<Rightarrow> ReadBuffer" where
  "ReadBuffer_clear buf = []"

definition readMessage ::
  "(string \<Rightarrow> error + 'm) \<Rightarrow> ReadBuffer \<Rightarrow> (error + 'm option) \<times> ReadBuffer" where
  "readMessage deserializeMessage buf =
     (if nl \<notin> set buf then (Inr None, buf)
      else
        (let line = takeWhile (\<lambda>c. c \<noteq> nl) buf;
             rest = tl (dropWhile (\<lambda>c. c \<noteq> nl) buf)
         in case deserializeMessage line of
              Inl e \<Rightarrow> (Inl e, rest)
            | Inr m \<Rightarrow> (Inr (Some m), rest)))"

lemma tl_dropWhile_shorter:
  "x \<in> set xs \<Longrightarrow> length (tl (dropWhile (\<lambda>c. c \<noteq> x) xs)) < length xs"
proof -
  assume "x \<in> set xs"
  then have "dropWhile (\<lambda>c. c \<noteq> x) xs \<noteq> []"
    by (auto simp: dropWhile_eq_Nil_conv)
  then have "length (tl (dropWhile (\<lambda>c. c \<noteq> x) xs)) < length (dropWhile (\<lambda>c. c \<noteq> x) xs)"
    by (cases "dropWhile (\<lambda>c. c \<noteq> x) xs") auto
  also have "\<dots> \<le> length xs"
    by (rule length_dropWhile_le)
  finally show ?thesis .
qed

lemma readMessage_shrinks:
  "readMessage d buf = (r, buf') \<Longrightarrow> r \<noteq> Inr None \<Longrightarrow> length buf' < length buf"
  using tl_dropWhile_shorter [of nl buf]
  by (auto simp: readMessage_def Let_def split: if_splits sum.splits)

text \<open>
  \<open>processReadBuffer\<close>, the same method in \<open>StdioServerTransport\<close> and \<open>StdioClientTransport\<close>:
  \<open>while (true)\<close> around a \<open>try\<close> that reads one message, leaves the loop on \<open>null\<close> and hands a
  message to \<open>onmessage\<close>; the \<open>catch\<close> reports the error to \<open>onerror\<close> and the loop goes on.
  The second component of the state is the list of callback invocations made so far.
\<close>

function processReadBuffer ::
  "(string \<Rightarrow> error + 'm) \<Rightarrow> ReadBuffer \<Rightarrow> 'm callback list
     \<Rightarrow> ReadBuffer \<times> 'm callback list" where
  "processReadBuffer d buf calls =
     (case readMessage d buf of
        (Inr None, buf') \<Rightarrow> (buf', calls)
      | (Inr (Some m), buf') \<Rightarrow> processReadBuffer d buf' (calls @ [OnMessage m])
      | (Inl e, buf') \<Rightarrow> processReadBuffer d buf' (calls @ [OnError e]))"
  by pat_completeness auto
termination
  by (relation "measure (\<lambda>(d, buf, calls). length buf)")
     (auto intro: readMessage_shrinks [OF sym])

declare processReadBuffer.simps [simp del]

text \<open>The \<open>data\<close> listener (\<open>_ondata\<close> of the server, the \<open>stdout\<close> listener of the client):
  append the chunk, then drain the buffer.\<close>

definition ondata ::
  "(string \<Rightarrow> error + 'm) \<Rightarrow> ReadBuffer \<times> 'm callback list \<Rightarrow> string
     \<Rightarrow> ReadBuffer \<times> 'm callback list" where
  "ondata d st chunk = processReadBuffer d (ReadBuffer_append (fst st) chunk) (snd st)"

section \<open>The SSE server transport (server/sse.ts)\<close>

subsection \<open>Session identifiers\<close>

text \<open>
  \<open>generateSessionId\<close>. The first argument is the result of \<open>globalThis.crypto.randomUUID()\<close>
  when that generator exists. Otherwise each \<open>x\<close> or \<open>y\<close> of the template is replaced, from left
  to right, using a fresh draw \<open>(Math.random() * 16) | 0\<close>, a number from 0 to 15, that is a
  4-bit word; \<open>rand i\<close> is the \<open>i\<close>-th draw. \<open>v.toString(16)\<close> of such a number is one digit.
\<close>

definition toString16 :: "4 word \<Rightarrow> char" where
  "toString16 v = ''0123456789abcdef'' ! unat v"

fun replace_xy :: "(nat \<Rightarrow> 4 word) \<Rightarrow> nat \<Rightarrow> string \<Rightarrow> string" where
  "replace_xy rand i [] = []"
| "replace_xy rand i (c # cs) =
     (if c = CHR ''x'' \<or> c = CHR ''y'' then
        (let r = rand i;
             v = (if c = CHR ''x'' then r else (r AND 0x3) OR 0x8)
         in toString16 v # replace_xy rand (Suc i) cs)
      else c # replace_xy rand i cs)"

definition generateSessionId :: "string option \<Rightarrow> (nat \<Rightarrow> 4 word) \<Rightarrow> string" where
  "generateSessionId randomUUID rand =
     (case randomUUID of
        Some uuid \<Rightarrow> uuid
      | None \<Rightarrow> replace_xy rand 0 ''xxxxxxxx-xxxx-4xxx-yxxx-xxxxxxxxxxxx'')"

subsection \<open>URLs\<close>

text \<open>
  The platform's \<open>URL\<close> objects, by the components the transports read. The parser
  (\<open>new URL(input, base)\<close>) is a parameter of the operations that call it and returns \<open>Inl\<close>
  for the \<open>TypeError\<close> it throws. \<open>searchParams.set\<close> follows the URL standard: the first pair
  of that name takes the value and the other pairs of that name are removed; with no such pair
  one is appended. \<open>search\<close> is \<open>?\<close> followed by the serialised pairs, or empty when there are
  none; the percent-encoding of names and values is the parameter \<open>enc\<close>.
\<close>

record URL =
  href :: string
  origin :: string
  pathname :: string
  searchParams :: "(string \<times> string) list"
  hash :: string

fun searchParams_set :: "string \<Rightarrow> string \<Rightarrow> (string \<times> string) list \<Rightarrow> (string \<times> string) list" where
  "searchParams_set name v [] = [(name, v)]"
| "searchParams_set name v (p # ps) =
     (if fst p = name then (name, v) # filter (\<lambda>q. fst q \<noteq> name) ps
      else p # searchParams_set name v ps)"

fun join_amp :: "string list \<Rightarrow> string" where
  "join_amp [] = []"
| "join_amp [x] = x"
| "join_amp (x # y # ys) = x @ ''&'' @ join_amp (y # ys)"

definition search :: "(string \<Rightarrow> string) \<Rightarrow> URL \<Rightarrow> string" where
  "search enc u =
     (if searchParams u = [] then []
      else ''?'' @ join_amp (map (\<lambda>p. enc (fst p) @ ''='' @ enc (snd p)) (searchParams u)))"

subsection \<open>Transport state\<close>

record SSEServerTransportOptions =
  allowedHosts :: "string list option"
  allowedOrigins :: "string list option"
  enableDnsRebindingProtection :: "bool option"

datatype res_op = WriteHead nat "(string \<times> string) list" | Write string | End "string option"

text \<open>
  \<open>sseResponse\<close> tells whether \<open>this._sseResponse\<close> is set (it is \<open>this.res\<close> when it is);
  \<open>res_ops\<close> lists the calls made on \<open>this.res\<close>; \<open>res_on\<close> tells whether \<open>this.res.on\<close> exists and
  \<open>close_listeners\<close> counts the \<open>close\<close> listeners that \<open>start\<close> has registered on it;
  \<open>srv_calls\<close> lists the callback invocations.
\<close>

record 'm SSEServerTransport =
  endpoint :: string
  sessionId :: string
  options :: SSEServerTransportOptions
  sseResponse :: bool
  res_ops :: "res_op list"
  res_on :: bool
  close_listeners :: nat
  srv_calls :: "'m callback list"

definition SSEServerTransport_new ::
  "string option \<Rightarrow> (nat \<Rightarrow> 4 word) \<Rightarrow> string \<Rightarrow> bool \<Rightarrow> SSEServerTransportOptions option
     \<Rightarrow> 'm SSEServerTransport" where
  "SSEServerTransport_new randomUUID rand ep has_on opts =
     \<lparr> endpoint = ep,
       sessionId = generateSessionId randomUUID rand,
       options = (case opts of
                    Some os \<Rightarrow> os
                  | None \<Rightarrow> \<lparr> allowedHosts = None, allowedOrigins = None,
                              enableDnsRebindingProtection = Some False \<rparr>),
       sseResponse = False,
       res_ops = [],
       res_on = has_on,
       close_listeners = 0,
       srv_calls = [] \<rparr>"

text \<open>\<open>start\<close>: the result is the error thrown, if any, and the state reached.\<close>

definition SSEServerTransport_start ::
  "(string \<Rightarrow> error + URL) \<Rightarrow> (string \<Rightarrow> string) \<Rightarrow> 'm SSEServerTransport
     \<Rightarrow> error option \<times> 'm SSEServerTransport" where
  "SSEServerTransport_start newURL enc t =
     (if sseResponse t then
        (Some (Error ''SSEServerTransport already started! If using Server class, note that connect() calls start() automatically.''), t)
      else
        (let t1 = t\<lparr> res_ops := res_ops t @
                     [WriteHead 200 [(''Content-Type'', ''text/event-stream''),
                                     (''Cache-Control'', ''no-cache, no-transform''),
                                     (''Connection'', ''keep-alive'')]] \<rparr>
         in case newURL (endpoint t) of
              Inl e \<Rightarrow> (Some e, t1)
            | Inr parsed \<Rightarrow>
                (let endpointUrl =
                       parsed\<lparr> searchParams :=
                                 searchParams_set ''sessionId'' (sessionId t) (searchParams parsed) \<rparr>;
                     relativeUrlWithSession =
                       pathname endpointUrl @ search enc endpointUrl @ hash endpointUrl;
                     t2 = t1\<lparr> res_ops := res_ops t1 @
                                [Write (''event: endpoint'' @ [nl] @ ''data: ''
                                        @ relativeUrlWithSession @ [nl, nl])],
                              sseResponse := True \<rparr>
                 in (None, if res_on t2
                           then t2\<lparr> close_listeners := Suc (close_listeners t2) \<rparr>
                           else t2))))"

text \<open>One \<open>close\<close> listener registered by \<open>start\<close>, and the \<open>close\<close> event of \<open>this.res\<close>, which
  runs every registered listener.\<close>

definition res_close_listener :: "'m SSEServerTransport \<Rightarrow> 'm SSEServerTransport" where
  "res_close_listener t = t\<lparr> sseResponse := False, srv_calls := srv_calls t @ [OnClose] \<rparr>"

definition res_close_event :: "'m SSEServerTransport \<Rightarrow> 'm SSEServerTransport" where
  "res_close_event t = (res_close_listener ^^ close_listeners t) t"

definition SSEServerTransport_close :: "'m SSEServerTransport \<Rightarrow> 'm SSEServerTransport" where
  "SSEServerTransport_close t =
     t\<lparr> res_ops := res_ops t @ (if sseResponse t then [End None] else []),
        sseResponse := False,
        srv_calls := srv_calls t @ [OnClose] \<rparr>"

subsection \<open>Inbound POST requests\<close>

text \<open>
  Request headers are either a Fetch \<open>Headers\<close> object (names are matched without regard to
  case, values are strings) or a plain record whose values are a string, an array of strings or
  absent. \<open>getHeader\<close> is only called with the lower-case names \<open>host\<close>, \<open>origin\<close> and
  \<open>content-type\<close>, on which \<open>toLowerCase\<close> is the identity. For a \<open>Headers\<close> object
  \<open>headers.get(name) || undefined\<close> turns the empty string into \<open>undefined\<close>; for a record the
  first element of an array is taken, which is \<open>undefined\<close> for an empty array.
\<close>

datatype hval = Single string | Multi "string list"

datatype headers = HeadersObj "string \<rightharpoonup> string" | Record "string \<rightharpoonup> hval"

fun getHeader :: "headers \<Rightarrow> string \<Rightarrow> string option" where
  "getHeader (HeadersObj h) name =
     (case h name of None \<Rightarrow> None | Some v \<Rightarrow> if v = [] then None else Some v)"
| "getHeader (Record h) name =
     (case h name of
        None \<Rightarrow> None
      | Some (Single v) \<Rightarrow> Some v
      | Some (Multi vs) \<Rightarrow> (case vs of [] \<Rightarrow> None | v # _ \<Rightarrow> Some v))"

text \<open>\<open>!header || !allowed.includes(header)\<close>, and the text of \<open>${header}\<close> in a template.\<close>

definition not_allowed :: "string list \<Rightarrow> string option \<Rightarrow> bool" where
  "not_allowed allowed header =
     (case header of None \<Rightarrow> True | Some v \<Rightarrow> v = [] \<or> v \<notin> set allowed)"

definition interpolate :: "string option \<Rightarrow> string" where
  "interpolate header = (case header of None \<Rightarrow> ''undefined'' | Some v \<Rightarrow> v)"

definition validateRequestHeaders :: "SSEServerTransportOptions \<Rightarrow> headers \<Rightarrow> string option" where
  "validateRequestHeaders opts hs =
     (if enableDnsRebindingProtection opts \<noteq> Some True then None
      else if (case allowedHosts opts of
                 None \<Rightarrow> False
               | Some hosts \<Rightarrow> hosts \<noteq> [] \<and> not_allowed hosts (getHeader hs ''host''))
      then Some (''Invalid Host header: '' @ interpolate (getHeader hs ''host''))
      else if (case allowedOrigins opts of
                 None \<Rightarrow> False
               | Some origins \<Rightarrow> origins \<noteq> [] \<and> not_allowed origins (getHeader hs ''origin''))
      then Some (''Invalid Origin header: '' @ interpolate (getHeader hs ''origin''))
      else None)"

text \<open>
  A JavaScript string is a sequence of UTF-16 code units and its \<open>length\<close> counts them; a
  \<open>Buffer\<close> is a sequence of bytes and its \<open>length\<close> counts bytes. \<open>utf8_size\<close> is the number
  of bytes of the UTF-8 encoding of a well-formed string: one, two or three bytes for a code
  unit outside the surrogate range, and four bytes for a surrogate pair, two for each half.
\<close>

type_synonym jsstring = "16 word list"
type_synonym bytes = "8 word list"

definition utf8_unit_size :: "16 word \<Rightarrow> nat" where
  "utf8_unit_size u =
     (if u < 0x80 then 1
      else if u < 0x800 then 2
      else if 0xD800 \<le> u \<and> u \<le> 0xDFFF then 2
      else 3)"

definition utf8_size :: "jsstring \<Rightarrow> nat" where
  "utf8_size s = sum_list (map utf8_unit_size s)"

definition MAXIMUM_MESSAGE_SIZE :: nat where
  "MAXIMUM_MESSAGE_SIZE = 4 * 1024 * 1024"

text \<open>
  How the body can be read: \<open>req.text\<close> exists (a Fetch request; the argument is what
  \<open>await req.text()\<close> gives), or else \<open>req.on\<close> exists (a Node request; the argument lists the
  \<open>data\<close>, \<open>end\<close> and \<open>error\<close> events in the order they are emitted), or neither.
\<close>

datatype body_event = Data bytes | EndOfBody | BodyError error

datatype body_source = FetchText "error + jsstring" | NodeStream "body_event list" | NoReader

datatype 'j body = BodyText jsstring | BodyValue 'j

record RequestLike =
  headers :: headers
  body_source :: body_source

text \<open>The promise around the Node listeners: \<open>None\<close> while it is pending, \<open>Inl\<close> when rejected,
  \<open>Inr\<close> with the collected chunks when \<open>end\<close> resolves it.\<close>

fun read_chunks :: "body_event list \<Rightarrow> nat \<Rightarrow> bytes list \<Rightarrow> (error + bytes list) option" where
  "read_chunks [] totalLength chunks = None"
| "read_chunks (Data chunk # evs) totalLength chunks =
     (if totalLength + length chunk > MAXIMUM_MESSAGE_SIZE
      then Some (Inl (Error ''Request body too large''))
      else read_chunks evs (totalLength + length chunk) (chunks @ [chunk]))"
| "read_chunks (EndOfBody # evs) totalLength chunks = Some (Inr chunks)"
| "read_chunks (BodyError e # evs) totalLength chunks = Some (Inl e)"

text \<open>
  The collaborators of \<open>handlePostMessage\<close>: \<open>contentType.parse\<close> (type and \<open>charset\<close>
  parameter), \<open>Buffer.toString(encoding)\<close>, \<open>JSON.parse\<close> and \<open>JSONRPCMessageSchema.parse\<close>;
  \<open>Inl\<close> is the error thrown.
\<close>

record ('j, 'm) collaborators =
  contentType_parse :: "string \<Rightarrow> error + (string \<times> string option)"
  toString :: "string \<Rightarrow> bytes \<Rightarrow> error + jsstring"
  JSON_parse :: "jsstring \<Rightarrow> error + 'j"
  schema_parse :: "'j \<Rightarrow> error + 'm"

text \<open>The first \<open>try\<close> block of \<open>handlePostMessage\<close>: \<open>None\<close> when the body never arrives,
  \<open>Inl\<close> for the error caught, \<open>Inr\<close> for the body.\<close>

definition read_body ::
  "('j, 'm) collaborators \<Rightarrow> RequestLike \<Rightarrow> 'j body option \<Rightarrow> (error + 'j body) option" where
  "read_body C req parsedBody =
     (case contentType_parse C (case getHeader (headers req) ''content-type'' of
                                  None \<Rightarrow> [] | Some v \<Rightarrow> v) of
        Inl e \<Rightarrow> Some (Inl e)
      | Inr ct \<Rightarrow>
          if fst ct \<noteq> ''application/json''
          then Some (Inl (Error (''Unsupported content-type: '' @ fst ct)))
          else
            (case parsedBody of
               Some b \<Rightarrow> Some (Inr b)
             | None \<Rightarrow>
                 (case body_source req of
                    FetchText r \<Rightarrow>
                      (case r of
                         Inl e \<Rightarrow> Some (Inl e)
                       | Inr bodyText \<Rightarrow>
                           if length bodyText > MAXIMUM_MESSAGE_SIZE
                           then Some (Inl (Error ''Request body too large''))
                           else Some (Inr (BodyText bodyText)))
                  | NodeStream evs \<Rightarrow>
                      (case read_chunks evs 0 [] of
                         None \<Rightarrow> None
                       | Some (Inl e) \<Rightarrow> Some (Inl e)
                       | Some (Inr chunks) \<Rightarrow>
                           (case toString C (case snd ct of None \<Rightarrow> ''utf-8'' | Some cs \<Rightarrow> cs)
                                   (concat chunks) of
                              Inl e \<Rightarrow> Some (Inl e)
                            | Inr s \<Rightarrow> Some (Inr (BodyText s))))
                  | NoReader \<Rightarrow> Some (Inl (Error ''Unable to read request body'')))))"

definition handleMessage ::
  "('j, 'm) collaborators \<Rightarrow> 'j \<Rightarrow> 'm SSEServerTransport \<Rightarrow> error option \<times> 'm SSEServerTransport" where
  "handleMessage C message t =
     (case schema_parse C message of
        Inl e \<Rightarrow> (Some e, t\<lparr> srv_calls := srv_calls t @ [OnError e] \<rparr>)
      | Inr parsedMessage \<Rightarrow> (None, t\<lparr> srv_calls := srv_calls t @ [OnMessage parsedMessage] \<rparr>))"

text \<open>
  The answer written to the POST's own response: the status of \<open>writeHead\<close> and the text of
  \<open>end\<close>, which is a fixed or validation text, \<open>String(error)\<close>, or \<open>Invalid message:\<close> followed
  by the body. \<open>handlePostMessage\<close> gives the answer (\<open>None\<close> while the body is awaited), the
  error thrown to the caller, if any, and the state reached.
\<close>

datatype 'j reply_text = Text string | StringOf error | InvalidMessage "'j body"

definition handlePostMessage ::
  "('j, 'm) collaborators \<Rightarrow> 'm SSEServerTransport \<Rightarrow> RequestLike \<Rightarrow> 'j body option
     \<Rightarrow> (nat \<times> 'j reply_text) option \<times> error option \<times> 'm SSEServerTransport" where
  "handlePostMessage C t req parsedBody =
     (if \<not> sseResponse t then
        (Some (500, Text ''SSE connection not established''),
         Some (Error ''SSE connection not established''), t)
      else
        (case validateRequestHeaders (options t) (headers req) of
           Some validationError \<Rightarrow>
             (Some (403, Text validationError), None,
              t\<lparr> srv_calls := srv_calls t @ [OnError (Error validationError)] \<rparr>)
         | None \<Rightarrow>
             (case read_body C req parsedBody of
                None \<Rightarrow> (None, None, t)
              | Some (Inl e) \<Rightarrow>
                  (Some (400, StringOf e), None, t\<lparr> srv_calls := srv_calls t @ [OnError e] \<rparr>)
              | Some (Inr body) \<Rightarrow>
                  (case (case body of BodyText s \<Rightarrow> JSON_parse C s | BodyValue v \<Rightarrow> Inr v) of
                     Inl e \<Rightarrow> (Some (400, InvalidMessage body), None, t)
                   | Inr message \<Rightarrow>
                       (case handleMessage C message t of
                          (Some e, t') \<Rightarrow> (Some (400, InvalidMessage body), None, t')
                        | (None, t') \<Rightarrow> (Some (202, Text ''Accepted''), None, t'))))))"

section \<open>The SSE client transport (client/sse.ts)\<close>

text \<open>
  The fields of the transport that the stream and \<open>send\<close> use, together with the variables
  that the promise of \<open>_startStream\<close> closes over: \<open>resolved\<close>; \<open>aborted\<close>, the state of
  the \<open>abortSignal\<close> of the stream's own controller; \<open>start_result\<close>, the promise itself
  (\<open>None\<close> while pending, \<open>Some None\<close> once resolved, \<open>Some (Some e)\<close> once rejected with \<open>e\<close>);
  and \<open>running\<close>, which holds until the \<open>process\<close> coroutine returns. \<open>abortController\<close> and
  \<open>reader\<close> tell whether \<open>this._abortController\<close> and \<open>this._reader\<close> are set, \<open>io\<close> lists the
  requests and authorisation attempts made by \<open>send\<close>, \<open>cli_calls\<close> the callback invocations.
\<close>

datatype io_action = POST | AUTH

record 'm SSEClientTransport =
  url :: URL
  endpointUrl :: "URL option"
  abortController :: bool
  reader :: bool
  authProvider :: bool
  didEmitClose :: bool
  resolved :: bool
  aborted :: bool
  start_result :: "error option option"
  running :: bool
  io :: "io_action list"
  cli_calls :: "'m callback list"

definition emitClose :: "'m SSEClientTransport \<Rightarrow> 'm SSEClientTransport" where
  "emitClose t =
     (if didEmitClose t then t
      else t\<lparr> didEmitClose := True, cli_calls := cli_calls t @ [OnClose] \<rparr>)"

text \<open>The state in which \<open>_startStream\<close> creates its promise: the flags were reset at its
  entry, a fresh controller is installed and the reader of the response body is kept.\<close>

definition open_stream :: "'m SSEClientTransport \<Rightarrow> 'm SSEClientTransport" where
  "open_stream t =
     t\<lparr> didEmitClose := False, endpointUrl := None, abortController := True, reader := True,
        resolved := False, aborted := False, start_result := None, running := True \<rparr>"

definition resolveOnce :: "'m SSEClientTransport \<Rightarrow> 'm SSEClientTransport" where
  "resolveOnce t =
     (if \<not> resolved t then t\<lparr> resolved := True, start_result := Some None \<rparr> else t)"

text \<open>\<open>finish(options)\<close> with \<open>options.error\<close> and \<open>options.aborted\<close>; every call of it is
  followed by the return of \<open>process\<close>.\<close>

definition finish :: "error option \<Rightarrow> bool \<Rightarrow> 'm SSEClientTransport \<Rightarrow> 'm SSEClientTransport" where
  "finish err ab t =
     (let t1 = t\<lparr> reader := False, abortController := False, running := False \<rparr>
      in if \<not> resolved t1 then
           t1\<lparr> start_result := Some (Some
                  (case err of
                     Some e \<Rightarrow> e
                   | None \<Rightarrow>
                       if ab then Error ''SSE connection aborted''
                       else Error ''SSE connection ended before receiving endpoint event'')) \<rparr>
         else
           (case err of
              Some e \<Rightarrow> t1\<lparr> cli_calls := cli_calls t1 @ [OnError e] \<rparr>
            | None \<Rightarrow> emitClose t1))"

text \<open>What \<open>await reader.read()\<close> gives: an event with its optional name and its data, a
  result without a value, the end of the stream, or an exception.\<close>

datatype read_result = Value "string option" string | NoValue | Done | ReadThrows error

definition is_AbortError :: "error \<Rightarrow> bool" where
  "is_AbortError e = (case e of External name msg \<Rightarrow> name = ''AbortError'' | _ \<Rightarrow> False)"

text \<open>\<open>value.event ?? 'message'\<close>, and the read results after which the loop simply goes on
  while no endpoint event has been seen: an event of another name, or a result without value.\<close>

definition eventName :: "string option \<Rightarrow> string" where
  "eventName ev = (case ev of None \<Rightarrow> ''message'' | Some n \<Rightarrow> n)"

definition not_endpoint :: "read_result \<Rightarrow> bool" where
  "not_endpoint r =
     (case r of Value ev data \<Rightarrow> eventName ev \<noteq> ''endpoint'' | NoValue \<Rightarrow> True | _ \<Rightarrow> False)"

text \<open>
  One turn of the \<open>while (true)\<close> loop of \<open>process\<close>, for the given result of the read.
  \<open>newURL data\<close> is \<open>new URL(value.data, this._url)\<close> and \<open>decode data\<close> is
  \<open>JSONRPCMessageSchema.parse(JSON.parse(value.data))\<close>.
\<close>

definition process_turn ::
  "(string \<Rightarrow> error + URL) \<Rightarrow> (string \<Rightarrow> error + 'm) \<Rightarrow> read_result
     \<Rightarrow> 'm SSEClientTransport \<Rightarrow> 'm SSEClientTransport" where
  "process_turn newURL decode r t =
     (case r of
        Done \<Rightarrow> finish None (aborted t) t
      | NoValue \<Rightarrow> t
      | ReadThrows e \<Rightarrow>
          if is_AbortError e \<or> aborted t then finish None True t else finish (Some e) False t
      | Value ev data \<Rightarrow>
          if eventName ev = ''endpoint'' then
            (case newURL data of
               Inl e \<Rightarrow> finish (Some e) False t
             | Inr u \<Rightarrow>
                 (let t1 = t\<lparr> endpointUrl := Some u \<rparr>
                  in if origin u \<noteq> origin (url t1) then
                       finish (Some (Error (''Endpoint origin does not match connection origin: ''
                                            @ origin u))) False t1
                     else resolveOnce t1))
          else if \<not> resolved t then t
          else
            (case decode data of
               Inr message \<Rightarrow> t\<lparr> cli_calls := cli_calls t @ [OnMessage message] \<rparr>
             | Inl e \<Rightarrow> t\<lparr> cli_calls := cli_calls t @ [OnError e] \<rparr>))"

text \<open>The coroutine on a sequence of read results: it takes turns until it has returned.
  When the sequence is used up the coroutine is waiting for the next read.\<close>

fun process ::
  "(string \<Rightarrow> error + URL) \<Rightarrow> (string \<Rightarrow> error + 'm) \<Rightarrow> read_result list
     \<Rightarrow> 'm SSEClientTransport \<Rightarrow> 'm SSEClientTransport" where
  "process newURL decode [] t = t"
| "process newURL decode (r # rs) t =
     (if running t then process newURL decode rs (process_turn newURL decode r t) else t)"

text \<open>
  \<open>close\<close> in two parts, before and after its \<open>await this._reader.cancel()\<close>, where the
  coroutine of the stream may take turns; without a reader the two parts run together.
\<close>

definition close_begin :: "'m SSEClientTransport \<Rightarrow> 'm SSEClientTransport" where
  "close_begin t =
     (if abortController t then t\<lparr> aborted := True, abortController := False \<rparr> else t)"

definition close_end :: "'m SSEClientTransport \<Rightarrow> 'm SSEClientTransport" where
  "close_end t = emitClose (t\<lparr> reader := False \<rparr>)"

definition SSEClientTransport_close :: "'m SSEClientTransport \<Rightarrow> 'm SSEClientTransport" where
  "SSEClientTransport_close t = close_end (close_begin t)"

text \<open>What happens to one stream: turns of its coroutine and calls of \<open>close\<close>, in any order.\<close>

datatype action = Read read_result | CloseBegin | CloseEnd

fun run ::
  "(string \<Rightarrow> error + URL) \<Rightarrow> (string \<Rightarrow> error + 'm) \<Rightarrow> action list
     \<Rightarrow> 'm SSEClientTransport \<Rightarrow> 'm SSEClientTransport" where
  "run newURL decode [] t = t"
| "run newURL decode (Read r # as) t =
     run newURL decode as (if running t then process_turn newURL decode r t else t)"
| "run newURL decode (CloseBegin # as) t = run newURL decode as (close_begin t)"
| "run newURL decode (CloseEnd # as) t = run newURL decode as (close_end t)"

subsection \<open>Sending\<close>

text \<open>
  What \<open>fetchImpl(this._endpoint, init)\<close> gives (an exception, or a response with its status
  and the body text that \<open>response.text()\<close> yields), and what \<open>auth(...)\<close> gives.
\<close>

datatype fetch_result = FetchThrows error | Response nat "string option"

datatype auth_result = AUTHORIZED | REDIRECT | AuthThrows error

definition ok :: "nat \<Rightarrow> bool" where
  "ok status = (200 \<le> status \<and> status \<le> 299)"

text \<open>
  \<open>send\<close>, on what the successive calls of \<open>fetch\<close> and of \<open>auth\<close> give. The result is \<open>None\<close>
  when a call it awaits never answers, and otherwise the error thrown (\<open>None\<close> for a fulfilled
  promise) with the state reached. The check of \<open>this._endpoint\<close> stands before the \<open>try\<close>, so
  its error is not reported to \<open>onerror\<close>. The recursive call is returned without \<open>await\<close>:
  its rejection does not pass through the \<open>catch\<close> of the caller again.
\<close>

fun send ::
  "'m SSEClientTransport \<Rightarrow> fetch_result list \<Rightarrow> auth_result list
     \<Rightarrow> (error option \<times> 'm SSEClientTransport) option" where
  "send t fs as =
     (if endpointUrl t = None then Some (Some (Error ''Not connected''), t)
      else
        (case fs of
           [] \<Rightarrow> None
         | f # fs' \<Rightarrow>
             (let t1 = t\<lparr> io := io t @ [POST] \<rparr>
              in case f of
                   FetchThrows e \<Rightarrow> Some (Some e, t1\<lparr> cli_calls := cli_calls t1 @ [OnError e] \<rparr>)
                 | Response status body \<Rightarrow>
                     if ok status then Some (None, t1)
                     else if status = 401 \<and> authProvider t1 then
                       (case as of
                          [] \<Rightarrow> None
                        | a # as' \<Rightarrow>
                            (let t2 = t1\<lparr> io := io t1 @ [AUTH] \<rparr>
                             in case a of
                                  AuthThrows e \<Rightarrow>
                                    Some (Some e, t2\<lparr> cli_calls := cli_calls t2 @ [OnError e] \<rparr>)
                                | REDIRECT \<Rightarrow>
                                    Some (Some (UnauthorizedError None),
                                          t2\<lparr> cli_calls := cli_calls t2
                                                @ [OnError (UnauthorizedError None)] \<rparr>)
                                | AUTHORIZED \<Rightarrow> send t2 fs' as'))
                     else
                       Some (Some (PostError status body),
                             t1\<lparr> cli_calls := cli_calls t1 @ [OnError (PostError status body)] \<rparr>))))"

declare send.simps [simp del]

text \<open>The steps that can come before the first endpoint event without ending the
  coroutine: reads that are no endpoint event, and the two parts of \<open>close\<close>.\<close>

definition before_endpoint :: "action \<Rightarrow> bool" where
  "before_endpoint a = (case a of Read r \<Rightarrow> not_endpoint r | CloseBegin \<Rightarrow> True | CloseEnd \<Rightarrow> True)"

section \<open>Counting close notifications\<close>

definition count_close :: "'m callback list \<Rightarrow> nat" where
  "count_close calls = length (filter (\<lambda>c. c = OnClose) calls)"

text \<open>The notifications already made plus the one the once-flag of the SSE client still
  allows: no step of a stream increases this number.\<close>

definition close_budget :: "'m SSEClientTransport \<Rightarrow> nat" where
  "close_budget t = count_close (cli_calls t) + (if didEmitClose t then 0 else 1)"

section \<open>Example values\<close>

text \<open>A parsed endpoint used in the examples below.\<close>

definition url0 :: URL where
  "url0 = \<lparr> href = ''http://h/messages'', origin = ''http://h'', pathname = ''/messages'',
            searchParams = [], hash = [] \<rparr>"

text \<open>A client transport used in the examples below.\<close>

definition client0 :: "nat SSEClientTransport" where
  "client0 = \<lparr> url = url0, endpointUrl = None, abortController = False, reader = False,
               authProvider = True, didEmitClose = False, resolved = False, aborted = False,
               start_result = None, running = False, io = [], cli_calls = [] \<rparr>"

text \<open>The same client once it has learned its endpoint.\<close>

definition client1 :: "nat SSEClientTransport" where
  "client1 = client0\<lparr> endpointUrl := Some url0 \<rparr>"

text \<open>A started server that allows one origin, stand-ins for the collaborators, and a request
  with a given origin and body, used in the examples below.\<close>

definition options0 :: SSEServerTransportOptions where
  "options0 = \<lparr> allowedHosts = None, allowedOrigins = Some [''https://a''],
                enableDnsRebindingProtection = Some True \<rparr>"

definition server0 :: "nat SSEServerTransport" where
  "server0 = snd (SSEServerTransport_start (\<lambda>s. Inr url0) (\<lambda>s. s)
                    (SSEServerTransport_new (Some ''id'') (\<lambda>i. 0) ''/messages'' True (Some options0)))"

definition collab0 :: "(nat, nat) collaborators" where
  "collab0 = \<lparr> contentType_parse = (\<lambda>s. Inr (s, None)),
               toString = (\<lambda>encoding b. Inr (map ucast b)),
               JSON_parse = (\<lambda>s. Inr (length s)),
               schema_parse = (\<lambda>j. Inr j) \<rparr>"

definition request0 :: "string \<Rightarrow> body_source \<Rightarrow> RequestLike" where
  "request0 orig src =
     \<lparr> headers = Record [''origin'' \<mapsto> Single orig, ''content-type'' \<mapsto> Single ''application/json''],
       body_source = src \<rparr>"

text \<open>An endpoint that already carries a query and a fragment, and a transport for it.\<close>

definition url1 :: URL where
  "url1 = \<lparr> href = ''http://localhost/messages?a=1&sessionId=old#top'',
            origin = ''http://localhost'', pathname = ''/messages'',
            searchParams = [(''a'', ''1''), (''sessionId'', ''old'')], hash = ''#top'' \<rparr>"

definition server1 :: "nat SSEServerTransport" where
  "server1 = SSEServerTransport_new (Some ''1b4e28ba-2fa1-41d2-883f-0016d3cca427'') (\<lambda>i. 0)
               ''/messages?a=1&sessionId=old#top'' True None"

text \<open>A body text of 1400000 euro signs (U+20AC, three bytes each in UTF-8): 4200000 bytes,
  1400000 code units. It stands for the text of a message with a long non-ASCII payload.\<close>

definition big_body :: jsstring where
  "big_body = replicate 1400000 0x20AC"

text \<open>A sequence of draws, and a transport constructed without the dedicated generator.\<close>

definition draws0 :: "nat \<Rightarrow> 4 word" where
  "draws0 i = of_nat i"

definition server2 :: "nat SSEServerTransport" where
  "server2 = SSEServerTransport_new None draws0 ''/messages'' True None"

section \<open>Properties of the environment\<close>

lemma inherit_loop_lookup:
  "inherit_loop processEnv keys env0 k =
     (if k \<in> set keys \<and> (\<exists>v. processEnv k = Some v \<and> \<not> startsWith v ''()'')
      then processEnv k else env0 k)"
  by (induction keys arbitrary: env0) (auto split: option.splits)

text \<open>
  C8. In a Node runtime \<open>getDefaultEnvironment\<close> returns exactly the variables that are named
  in the platform's allow-list, defined in the parent environment, and whose value does not
  begin with \<open>()\<close>; each returned value is the parent's value.
\<close>

theorem getDefaultEnvironment_exact:
  assumes "isNode"
  shows "getDefaultEnvironment isNode platform processEnv k =
           (if k \<in> set (DEFAULT_INHERITED_ENV_VARS isNode platform)
               \<and> (\<exists>v. processEnv k = Some v \<and> \<not> startsWith v ''()'')
            then processEnv k else None)"
  using assms by (simp add: getDefaultEnvironment_def inherit_loop_lookup)

theorem getDefaultEnvironment_exact_witness:
  "getDefaultEnvironment True ''linux''
      [''HOME'' \<mapsto> ''/root'', ''SHELL'' \<mapsto> ''() { :; }'', ''SECRET'' \<mapsto> ''x''] ''HOME''
     = Some ''/root''
   \<and> getDefaultEnvironment True ''linux''
      [''HOME'' \<mapsto> ''/root'', ''SHELL'' \<mapsto> ''() { :; }'', ''SECRET'' \<mapsto> ''x''] ''SHELL''
     = None
   \<and> getDefaultEnvironment True ''linux''
      [''HOME'' \<mapsto> ''/root'', ''SHELL'' \<mapsto> ''() { :; }'', ''SECRET'' \<mapsto> ''x''] ''SECRET''
     = None"
  using getDefaultEnvironment_exact [of True "''linux''"
      "[''HOME'' \<mapsto> ''/root'', ''SHELL'' \<mapsto> ''() { :; }'', ''SECRET'' \<mapsto> ''x'']" "''HOME''"]
    getDefaultEnvironment_exact [of True "''linux''"
      "[''HOME'' \<mapsto> ''/root'', ''SHELL'' \<mapsto> ''() { :; }'', ''SECRET'' \<mapsto> ''x'']" "''SHELL''"]
    getDefaultEnvironment_exact [of True "''linux''"
      "[''HOME'' \<mapsto> ''/root'', ''SHELL'' \<mapsto> ''() { :; }'', ''SECRET'' \<mapsto> ''x'']" "''SECRET''"]
  by (simp add: DEFAULT_INHERITED_ENV_VARS_def startsWith_def)

text \<open>
  C1 (as stated). A caller-supplied override equal to \<open>() { echo pwned; }\<close> is never in the
  environment handed to the spawned child. The overrides are spread over the defaults without
  any filter, so the statement fails on the code.
\<close>

theorem override_function_value_counterexample:
  "\<not> isl (StdioClientTransport_start True ''linux'' False Map.empty False
            \<lparr> command = ''server'', args = None,
              env = Some [''BASH_FUNC_x%%'' \<mapsto> ''() { echo pwned; }''],
              stderr = None, cwd = None \<rparr>)
   \<and> opt_env (snd (snd (projr (StdioClientTransport_start True ''linux'' False Map.empty False
            \<lparr> command = ''server'', args = None,
              env = Some [''BASH_FUNC_x%%'' \<mapsto> ''() { echo pwned; }''],
              stderr = None, cwd = None \<rparr>)))) ''BASH_FUNC_x%%''
       = Some ''() { echo pwned; }''"
  by (simp add: StdioClientTransport_start_def spawn_env_def)

text \<open>
  C1 (amended). The environment of the spawned child is the default environment overwritten by
  the caller's overrides, which are passed on unchanged. Hence a value beginning with \<open>()\<close>
  reaches the child only as a caller-supplied override, never by inheritance from the parent.
\<close>

theorem spawn_env_function_values_only_from_overrides:
  assumes "StdioClientTransport_start isNode platform isElectron processEnv False params
             = Inr (c, a, opts)"
  shows "opt_env opts k =
           (case env params of
              None \<Rightarrow> getDefaultEnvironment isNode platform processEnv k
            | Some e \<Rightarrow>
                (case e k of
                   Some v \<Rightarrow> Some v
                 | None \<Rightarrow> getDefaultEnvironment isNode platform processEnv k))
         \<and> (\<forall>v. opt_env opts k = Some v \<and> startsWith v ''()''
                \<longrightarrow> (\<exists>e. env params = Some e \<and> e k = Some v))"
proof -
  have oe: "opt_env opts = spawn_env isNode platform processEnv params"
    using assms by (auto simp: StdioClientTransport_start_def)
  have eq: "opt_env opts k =
           (case env params of
              None \<Rightarrow> getDefaultEnvironment isNode platform processEnv k
            | Some e \<Rightarrow>
                (case e k of
                   Some v \<Rightarrow> Some v
                 | None \<Rightarrow> getDefaultEnvironment isNode platform processEnv k))"
    by (simp add: oe spawn_env_def map_add_def split: option.splits)
  have nd: "startsWith v ''()'' \<Longrightarrow> getDefaultEnvironment isNode platform processEnv k \<noteq> Some v"
    for v
    by (auto simp: getDefaultEnvironment_def inherit_loop_lookup)
  have "\<exists>e. env params = Some e \<and> e k = Some v"
    if "opt_env opts k = Some v" and "startsWith v ''()''" for v
    using that nd [of v] by (auto simp: oe spawn_env_def map_add_def split: option.splits)
  with eq show ?thesis by blast
qed

theorem spawn_env_function_values_only_from_overrides_witness:
  "opt_env \<lparr> opt_env = spawn_env True ''linux'' [''HOME'' \<mapsto> ''() { :; }'', ''USER'' \<mapsto> ''u'']
                \<lparr> command = ''server'', args = None, env = Some [''A'' \<mapsto> ''b''],
                  stderr = None, cwd = None \<rparr>,
             opt_stdio = [''pipe'', ''pipe'', ''inherit''], opt_shell = False,
             opt_windowsHide = False, opt_cwd = None \<rparr> ''HOME'' = None"
  using spawn_env_function_values_only_from_overrides
    [of True "''linux''" False "[''HOME'' \<mapsto> ''() { :; }'', ''USER'' \<mapsto> ''u'']"
        "\<lparr> command = ''server'', args = None, env = Some [''A'' \<mapsto> ''b''],
          stderr = None, cwd = None \<rparr>"
        "''server''" "[]"
        "\<lparr> opt_env = spawn_env True ''linux'' [''HOME'' \<mapsto> ''() { :; }'', ''USER'' \<mapsto> ''u'']
                \<lparr> command = ''server'', args = None, env = Some [''A'' \<mapsto> ''b''],
                  stderr = None, cwd = None \<rparr>,
             opt_stdio = [''pipe'', ''pipe'', ''inherit''], opt_shell = False,
             opt_windowsHide = False, opt_cwd = None \<rparr>"
        "''HOME''"]
  by (simp add: StdioClientTransport_start_def getDefaultEnvironment_def
        DEFAULT_INHERITED_ENV_VARS_def startsWith_def)

section \<open>Properties of the stdio transports\<close>

lemma readMessage_partial:
  "nl \<notin> set rest \<Longrightarrow> readMessage d rest = (Inr None, rest)"
  by (simp add: readMessage_def)

lemma takeWhile_until:
  "x \<notin> set l \<Longrightarrow> takeWhile (\<lambda>c. c \<noteq> x) (l @ x # tail) = l"
  by (induction l) auto

lemma dropWhile_until:
  "x \<notin> set l \<Longrightarrow> dropWhile (\<lambda>c. c \<noteq> x) (l @ x # tail) = x # tail"
  by (induction l) auto

lemma readMessage_line:
  "nl \<notin> set l \<Longrightarrow>
   readMessage d (l @ nl # tail) =
     (case d l of Inl e \<Rightarrow> (Inl e, tail) | Inr m \<Rightarrow> (Inr (Some m), tail))"
  by (simp add: readMessage_def Let_def takeWhile_until dropWhile_until split: sum.splits)

lemma processReadBuffer_line:
  "nl \<notin> set l \<Longrightarrow>
   processReadBuffer d (l @ nl # tail) calls =
     processReadBuffer d tail (calls @ [case d l of Inl e \<Rightarrow> OnError e | Inr m \<Rightarrow> OnMessage m])"
  by (subst processReadBuffer.simps) (simp add: readMessage_line split: sum.splits)

lemma processReadBuffer_lines:
  assumes "\<forall>l \<in> set ls. nl \<notin> set l" and "nl \<notin> set rest"
  shows "processReadBuffer d (concat (map (\<lambda>l. l @ [nl]) ls) @ rest) calls
           = (rest, calls @ map (\<lambda>l. case d l of Inl e \<Rightarrow> OnError e | Inr m \<Rightarrow> OnMessage m) ls)"
  using assms
proof (induction ls arbitrary: calls)
  case Nil
  then show ?case by (subst processReadBuffer.simps) (simp add: readMessage_partial)
next
  case (Cons l ls)
  then show ?case by (simp add: processReadBuffer_line)
qed

text \<open>
  C7. When the buffer, after a chunk is appended, holds any number of complete lines followed
  by a partial line, the \<open>data\<close> listener makes exactly one callback invocation for each
  complete line, in order: \<open>onerror\<close> for a line that fails to decode and \<open>onmessage\<close> for a
  line that decodes; the partial line stays buffered. A line that fails to decode therefore
  never stops the delivery of the lines behind it; a malformed line followed by a valid line
  gives one \<open>onerror\<close> and then one \<open>onmessage\<close>.
\<close>

theorem ondata_reports_every_line:
  assumes "fst st @ chunk = concat (map (\<lambda>l. l @ [nl]) ls) @ rest"
    and "\<forall>l \<in> set ls. nl \<notin> set l"
    and "nl \<notin> set rest"
  shows "ondata d st chunk =
           (rest, snd st @ map (\<lambda>l. case d l of Inl e \<Rightarrow> OnError e | Inr m \<Rightarrow> OnMessage m) ls)"
  using assms by (simp add: ondata_def ReadBuffer_append_def processReadBuffer_lines)

theorem ondata_reports_every_line_witness:
  "ondata (\<lambda>s. if s = ''{}'' then Inr (7::nat) else Inl (External ''SyntaxError'' s))
          ([], []) (''oops'' @ [nl] @ ''{}'' @ [nl])
     = ([], [OnError (External ''SyntaxError'' ''oops''), OnMessage 7])"
  using ondata_reports_every_line
    [of "([], [])" "''oops'' @ [nl] @ ''{}'' @ [nl]" "[''oops'', ''{}'']" "[]"
        "\<lambda>s. if s = ''{}'' then Inr (7::nat) else Inl (External ''SyntaxError'' s)"]
  by (simp add: nl_def)

section \<open>Close notifications\<close>

text \<open>
  C3 (as stated). No transport invokes \<open>onclose\<close> twice. \<open>SSEServerTransport.close\<close> invokes it
  on every call: closing twice, or closing after the connection has dropped and the \<open>close\<close>
  listener has run, gives two invocations.
\<close>

theorem close_twice_counterexample:
  "count_close (srv_calls (SSEServerTransport_close (SSEServerTransport_close
      (snd (SSEServerTransport_start (\<lambda>s. Inr url0) (\<lambda>s. s)
         (SSEServerTransport_new (Some ''id'') (\<lambda>i. 0) ''/messages'' True None
            :: nat SSEServerTransport)))))) = 2
   \<and> count_close (srv_calls (SSEServerTransport_close (res_close_event
      (snd (SSEServerTransport_start (\<lambda>s. Inr url0) (\<lambda>s. s)
         (SSEServerTransport_new (Some ''id'') (\<lambda>i. 0) ''/messages'' True None
            :: nat SSEServerTransport)))))) = 2"
  by (simp add: SSEServerTransport_close_def SSEServerTransport_start_def
        SSEServerTransport_new_def res_close_event_def res_close_listener_def
        count_close_def url0_def Let_def)

lemma close_budget_emitClose: "close_budget (emitClose t) \<le> close_budget t"
  by (simp add: close_budget_def emitClose_def count_close_def)

lemma close_budget_finish: "close_budget (finish err ab t) \<le> close_budget t"
  by (simp add: close_budget_def finish_def emitClose_def count_close_def Let_def split: option.splits)

lemma close_budget_endpoint: "close_budget (t\<lparr> endpointUrl := u \<rparr>) = close_budget t"
  by (simp add: close_budget_def)

lemma close_budget_resolveOnce: "close_budget (resolveOnce t) = close_budget t"
  by (simp add: close_budget_def resolveOnce_def)

lemma close_budget_call: "c \<noteq> OnClose \<Longrightarrow> close_budget (t\<lparr> cli_calls := cli_calls t @ [c] \<rparr>) = close_budget t"
  by (simp add: close_budget_def count_close_def)

lemma close_budget_process_turn: "close_budget (process_turn newURL decode r t) \<le> close_budget t"
proof (cases r)
  case (Value ev data)
  have "close_budget (finish e a (t\<lparr> endpointUrl := u \<rparr>)) \<le> close_budget t" for e a u
    using close_budget_finish [of e a "t\<lparr> endpointUrl := u \<rparr>"] by (simp add: close_budget_endpoint)
  then show ?thesis
    using Value
    by (simp add: process_turn_def Let_def close_budget_finish close_budget_endpoint close_budget_resolveOnce close_budget_call
             split: sum.splits)
next
  case NoValue
  then show ?thesis by (simp add: process_turn_def)
next
  case Done
  then show ?thesis by (simp add: process_turn_def close_budget_finish)
next
  case (ReadThrows e)
  then show ?thesis by (simp add: process_turn_def close_budget_finish)
qed

lemma close_budget_close_begin: "close_budget (close_begin t) = close_budget t"
  by (simp add: close_budget_def close_begin_def)

lemma close_budget_close_end: "close_budget (close_end t) \<le> close_budget t"
  using close_budget_emitClose [of "t\<lparr> reader := False \<rparr>"] by (simp add: close_end_def close_budget_def)

lemma close_budget_run: "close_budget (run newURL decode acts t) \<le> close_budget t"
proof (induction acts arbitrary: t)
  case Nil
  show ?case by simp
next
  case (Cons a acts)
  show ?case
  proof (cases a)
    case (Read r)
    have "close_budget (run newURL decode acts (if running t then process_turn newURL decode r t else t))
            \<le> close_budget (if running t then process_turn newURL decode r t else t)"
      by (rule Cons.IH)
    also have "\<dots> \<le> close_budget t" by (simp add: close_budget_process_turn)
    finally show ?thesis using Read by simp
  next
    case CloseBegin
    then show ?thesis using Cons.IH [of "close_begin t"] by (simp add: close_budget_close_begin)
  next
    case CloseEnd
    then show ?thesis
      using Cons.IH [of "close_end t"] close_budget_close_end [of t] by simp
  qed
qed

text \<open>
  C3 (amended). For the SSE client, from the opening of a stream, whatever the stream delivers
  and however often and whenever \<open>close\<close> is called (twice, or after the remote end has ended
  the stream), \<open>onclose\<close> is invoked at most once.
\<close>

theorem close_reported_at_most_once_per_stream:
  "count_close (cli_calls (run newURL decode acts (open_stream t)))
     \<le> Suc (count_close (cli_calls t))"
proof -
  have "count_close (cli_calls (run newURL decode acts (open_stream t)))
          \<le> close_budget (run newURL decode acts (open_stream t))"
    by (simp add: close_budget_def)
  also have "\<dots> \<le> close_budget (open_stream t)" by (rule close_budget_run)
  also have "\<dots> = Suc (count_close (cli_calls t))" by (simp add: close_budget_def open_stream_def)
  finally show ?thesis .
qed

theorem close_reported_at_most_once_per_stream_witness:
  "count_close (cli_calls (run (\<lambda>s. Inr url0) (\<lambda>s. Inr (0::nat))
      [Read (Value (Some ''endpoint'') ''/messages''), Read Done,
       CloseBegin, CloseEnd, CloseBegin, CloseEnd]
      (open_stream \<lparr> url = url0, endpointUrl = None, abortController = False, reader = False,
                     authProvider = False, didEmitClose = False, resolved = False,
                     aborted = False, start_result = None, running = False, io = [],
                     cli_calls = [] \<rparr>))) = 1"
  using close_reported_at_most_once_per_stream
    [of "\<lambda>s. Inr url0" "\<lambda>s. Inr (0::nat)"
        "[Read (Value (Some ''endpoint'') ''/messages''), Read Done,
          CloseBegin, CloseEnd, CloseBegin, CloseEnd]"
        "\<lparr> url = url0, endpointUrl = None, abortController = False, reader = False,
           authProvider = False, didEmitClose = False, resolved = False,
           aborted = False, start_result = None, running = False, io = [],
           cli_calls = [] \<rparr>"]
  by (simp add: open_stream_def process_turn_def eventName_def resolveOnce_def finish_def
        emitClose_def close_begin_def close_end_def count_close_def url0_def Let_def)

section \<open>The stream of the SSE client\<close>

lemma process_not_running: "\<not> running t \<Longrightarrow> process N D rs t = t"
  by (cases rs) auto

lemma process_append: "process N D (xs @ ys) t = process N D ys (process N D xs t)"
  by (induction xs arbitrary: t) (auto simp: process_not_running)

lemma process_turn_ignored:
  "not_endpoint r \<Longrightarrow> \<not> resolved t \<Longrightarrow> process_turn N D r t = t"
  by (cases r) (auto simp: not_endpoint_def process_turn_def)

lemma process_ignored:
  "\<forall>r \<in> set rs. not_endpoint r \<Longrightarrow> \<not> resolved t \<Longrightarrow> process N D rs t = t"
  by (induction rs) (auto simp: process_turn_ignored)

lemma finish_not_running: "\<not> running (finish err ab t)"
  by (simp add: finish_def Let_def emitClose_def split: option.splits)

lemma finish_unresolved:
  "\<not> resolved t \<Longrightarrow>
   finish err ab t =
     t\<lparr> reader := False, abortController := False, running := False,
        start_result := Some (Some
          (case err of
             Some e \<Rightarrow> e
           | None \<Rightarrow>
               if ab then Error ''SSE connection aborted''
               else Error ''SSE connection ended before receiving endpoint event'')) \<rparr>"
  by (simp add: finish_def Let_def)

lemma url_finish: "url (finish err ab t) = url t"
  by (simp add: finish_def Let_def emitClose_def split: option.splits)

lemma url_process_turn: "url (process_turn N D r t) = url t"
  by (cases r)
     (auto simp: process_turn_def url_finish resolveOnce_def Let_def split: sum.splits)

lemma start_result_finish:
  "start_result t \<noteq> Some None \<Longrightarrow> start_result (finish err ab t) \<noteq> Some None"
  by (simp add: finish_def Let_def emitClose_def split: option.splits)

lemma resolved_by_endpoint:
  assumes "start_result (process_turn N D r t) = Some None" and "start_result t \<noteq> Some None"
  shows "\<exists>ev data u. r = Value ev data \<and> eventName ev = ''endpoint'' \<and> N data = Inr u
           \<and> origin u = origin (url t)"
proof (cases r)
  case (Value ev data)
  show ?thesis
  proof (cases "eventName ev = ''endpoint''")
    case True
    show ?thesis
    proof (cases "N data")
      case (Inl e)
      with assms Value True show ?thesis
        using start_result_finish [of t "Some e" False] by (simp add: process_turn_def)
    next
      case (Inr u)
      show ?thesis
      proof (cases "origin u = origin (url t)")
        case True
        with Value \<open>eventName ev = ''endpoint''\<close> Inr show ?thesis by simp
      next
        case False
        with assms Value True Inr show ?thesis
          using start_result_finish [of "t\<lparr> endpointUrl := Some u \<rparr>"]
          by (simp add: process_turn_def Let_def)
      qed
    qed
  next
    case False
    with assms Value show ?thesis
      by (auto simp: process_turn_def split: if_splits sum.splits)
  qed
next
  case NoValue
  with assms show ?thesis by (simp add: process_turn_def)
next
  case Done
  with assms show ?thesis using start_result_finish [of t] by (simp add: process_turn_def)
next
  case (ReadThrows e)
  with assms show ?thesis
    using start_result_finish [of t] by (simp add: process_turn_def split: if_splits)
qed

lemma resolved_finish: "resolved (finish err ab t) = resolved t"
  by (simp add: finish_def Let_def emitClose_def split: option.splits)

lemma resolved_process_turn: "resolved t \<Longrightarrow> resolved (process_turn N D r t)"
  by (cases r)
     (auto simp: process_turn_def resolved_finish resolveOnce_def Let_def split: sum.splits)

lemma resolved_process: "resolved t \<Longrightarrow> resolved (process N D rs t)"
  by (induction rs arbitrary: t) (auto simp: resolved_process_turn)

lemma calls_finish_unresolved: "\<not> resolved t \<Longrightarrow> cli_calls (finish err ab t) = cli_calls t"
  by (simp add: finish_unresolved)

lemma calls_process_turn_unresolved:
  assumes "\<not> resolved (process_turn N D r t)"
  shows "cli_calls (process_turn N D r t) = cli_calls t"
proof -
  have nr: "\<not> resolved t" using assms resolved_process_turn by blast
  show ?thesis
  proof (cases r)
    case (Value ev data)
    with nr assms show ?thesis
      by (auto simp: process_turn_def calls_finish_unresolved resolveOnce_def Let_def
               split: sum.splits)
  next
    case NoValue
    then show ?thesis by (simp add: process_turn_def)
  next
    case Done
    with nr show ?thesis by (simp add: process_turn_def calls_finish_unresolved)
  next
    case (ReadThrows e)
    with nr show ?thesis by (simp add: process_turn_def calls_finish_unresolved)
  qed
qed

lemma calls_process_unresolved:
  "\<not> resolved (process N D rs t) \<Longrightarrow> cli_calls (process N D rs t) = cli_calls t"
proof (induction rs arbitrary: t)
  case Nil
  show ?case by simp
next
  case (Cons r rs)
  show ?case
  proof (cases "running t")
    case False
    then show ?thesis by simp
  next
    case True
    with Cons.prems have u: "\<not> resolved (process N D rs (process_turn N D r t))" by simp
    then have "\<not> resolved (process_turn N D r t)" using resolved_process by blast
    then have "cli_calls (process_turn N D r t) = cli_calls t"
      by (rule calls_process_turn_unresolved)
    with Cons.IH [OF u] True show ?thesis by simp
  qed
qed

text \<open>
  C10. While no endpoint event has been accepted (\<open>resolved\<close> is false, so the promise of
  \<open>start\<close> is not fulfilled), the stream makes no callback invocation at all: in particular
  \<open>onmessage\<close> is never invoked before the endpoint event. Events of another name and reads
  without a value that arrive before the endpoint event leave the whole state as it is, so
  they produce neither \<open>onmessage\<close> nor \<open>onerror\<close>.
\<close>

theorem no_callback_before_endpoint:
  assumes "\<not> resolved t"
  shows "(\<not> resolved (process N D rs t) \<longrightarrow> cli_calls (process N D rs t) = cli_calls t)
       \<and> ((\<forall>r \<in> set rs. not_endpoint r) \<longrightarrow> process N D rs t = t)"
  using assms by (simp add: calls_process_unresolved process_ignored)

theorem no_callback_before_endpoint_witness:
  "process (\<lambda>s. Inr url0) (\<lambda>s. Inr (0::nat))
     [Value None ''{}'', Value (Some ''ping'') ''x'', NoValue] (open_stream client0)
   = open_stream client0"
  using no_callback_before_endpoint
    [of "open_stream client0" "\<lambda>s. Inr url0" "\<lambda>s. Inr (0::nat)"
        "[Value None ''{}'', Value (Some ''ping'') ''x'', NoValue]"]
  by (simp add: open_stream_def not_endpoint_def eventName_def)

text \<open>
  C5 (as stated). When the stream aborts before any endpoint event, \<open>start\<close> fails and
  \<open>onclose\<close> is not invoked. The signal of a stream is aborted only by \<open>close\<close>, and
  \<open>close\<close> ends with the close notification: the promise of \<open>start\<close> is rejected and
  \<open>onclose\<close> is invoked as well.
\<close>

theorem abort_before_endpoint_counterexample:
  "start_result (run (\<lambda>s. Inr url0) (\<lambda>s. Inr (0::nat)) [CloseBegin, Read Done, CloseEnd]
                   (open_stream client0))
     = Some (Some (Error ''SSE connection aborted''))
   \<and> cli_calls (run (\<lambda>s. Inr url0) (\<lambda>s. Inr (0::nat)) [CloseBegin, Read Done, CloseEnd]
                   (open_stream client0))
     = [OnClose]"
  by (simp add: open_stream_def client0_def close_begin_def close_end_def emitClose_def
        process_turn_def finish_def Let_def)

lemma run_append: "run N D (xs @ ys) t = run N D ys (run N D xs t)"
proof (induction xs arbitrary: t)
  case Nil
  show ?case by simp
next
  case (Cons a xs)
  then show ?case by (cases a) simp_all
qed

text \<open>Steps that leave the coroutine where it is: reads that it ignores, and calls of close.\<close>

lemma run_inert:
  assumes "\<forall>a \<in> set acts. \<forall>r. a = Read r \<longrightarrow> \<not> running t \<or> (not_endpoint r \<and> \<not> resolved t)"
  shows "run N D acts t =
           t\<lparr> abortController := abortController t \<and> CloseBegin \<notin> set acts,
              reader := reader t \<and> CloseEnd \<notin> set acts,
              didEmitClose := didEmitClose t \<or> CloseEnd \<in> set acts,
              aborted := aborted t \<or> (abortController t \<and> CloseBegin \<in> set acts),
              cli_calls := cli_calls t @
                (if CloseEnd \<in> set acts \<and> \<not> didEmitClose t then [OnClose] else []) \<rparr>"
  using assms
proof (induction acts arbitrary: t)
  case Nil
  show ?case by simp
next
  case (Cons a acts)
  show ?case
  proof (cases a)
    case (Read r)
    with Cons.prems have step: "(if running t then process_turn N D r t else t) = t"
      by (auto simp: process_turn_ignored)
    have "run N D (a # acts) t = run N D acts t"
      using Read step by simp
    also have "\<dots> = t\<lparr> abortController := abortController t \<and> CloseBegin \<notin> set acts,
              reader := reader t \<and> CloseEnd \<notin> set acts,
              didEmitClose := didEmitClose t \<or> CloseEnd \<in> set acts,
              aborted := aborted t \<or> (abortController t \<and> CloseBegin \<in> set acts),
              cli_calls := cli_calls t @
                (if CloseEnd \<in> set acts \<and> \<not> didEmitClose t then [OnClose] else []) \<rparr>"
      using Cons.prems by (intro Cons.IH) simp
    finally show ?thesis using Read by simp
  next
    case CloseBegin
    have "run N D (a # acts) t = run N D acts (close_begin t)"
      using CloseBegin by simp
    also have "\<dots> = (close_begin t)\<lparr> abortController := abortController (close_begin t) \<and> CloseBegin \<notin> set acts,
              reader := reader (close_begin t) \<and> CloseEnd \<notin> set acts,
              didEmitClose := didEmitClose (close_begin t) \<or> CloseEnd \<in> set acts,
              aborted := aborted (close_begin t) \<or> (abortController (close_begin t) \<and> CloseBegin \<in> set acts),
              cli_calls := cli_calls (close_begin t) @
                (if CloseEnd \<in> set acts \<and> \<not> didEmitClose (close_begin t) then [OnClose] else []) \<rparr>"
      using Cons.prems by (intro Cons.IH) (simp add: close_begin_def)
    finally show ?thesis using CloseBegin by (simp add: close_begin_def)
  next
    case CloseEnd
    have "run N D (a # acts) t = run N D acts (close_end t)"
      using CloseEnd by simp
    also have "\<dots> = (close_end t)\<lparr> abortController := abortController (close_end t) \<and> CloseBegin \<notin> set acts,
              reader := reader (close_end t) \<and> CloseEnd \<notin> set acts,
              didEmitClose := didEmitClose (close_end t) \<or> CloseEnd \<in> set acts,
              aborted := aborted (close_end t) \<or> (abortController (close_end t) \<and> CloseBegin \<in> set acts),
              cli_calls := cli_calls (close_end t) @
                (if CloseEnd \<in> set acts \<and> \<not> didEmitClose (close_end t) then [OnClose] else []) \<rparr>"
      using Cons.prems by (intro Cons.IH) (simp add: close_end_def emitClose_def)
    finally show ?thesis using CloseEnd by (simp add: close_end_def emitClose_def)
  qed
qed

lemma close_keeps_start:
  "start_result (close_begin t) = start_result t" "url (close_begin t) = url t"
  "start_result (close_end t) = start_result t" "url (close_end t) = url t"
  "resolved (close_begin t) = resolved t" "resolved (close_end t) = resolved t"
  by (simp_all add: close_begin_def close_end_def emitClose_def)

lemma run_resolved_only_by_endpoint:
  "start_result (run N D acts t) = Some None \<Longrightarrow> start_result t \<noteq> Some None \<Longrightarrow>
   \<exists>ev data u. Read (Value ev data) \<in> set acts \<and> eventName ev = ''endpoint''
     \<and> N data = Inr u \<and> origin u = origin (url t)"
proof (induction acts arbitrary: t)
  case Nil
  then show ?case by simp
next
  case (Cons a acts)
  show ?case
  proof (cases a)
    case (Read r)
    show ?thesis
    proof (cases "running t \<and> start_result (process_turn N D r t) = Some None")
      case True
      with resolved_by_endpoint [of N D r t] Cons.prems(2) Read show ?thesis by auto
    next
      case False
      define t' where "t' = (if running t then process_turn N D r t else t)"
      have "start_result t' \<noteq> Some None" and "url t' = url t"
        using False Cons.prems(2) by (auto simp: t'_def url_process_turn)
      moreover have "start_result (run N D acts t') = Some None"
        using Cons.prems(1) Read by (simp add: t'_def)
      ultimately show ?thesis using Cons.IH [of t'] by auto
    qed
  next
    case CloseBegin
    with Cons.prems Cons.IH [of "close_begin t"] show ?thesis
      by (auto simp: close_keeps_start)
  next
    case CloseEnd
    with Cons.prems Cons.IH [of "close_end t"] show ?thesis
      by (auto simp: close_keeps_start)
  qed
qed

lemma turn_keeps_resolution:
  assumes "resolved t"
  shows "resolved (process_turn N D r t) \<and> start_result (process_turn N D r t) = start_result t"
proof -
  have f: "start_result (finish err ab s) = start_result s" if "resolved s" for err ab
    and s :: "'a SSEClientTransport"
    using that by (simp add: finish_def Let_def emitClose_def split: option.splits)
  show ?thesis
    using assms
    by (cases r)
       (auto simp: process_turn_def resolved_finish f resolveOnce_def Let_def split: sum.splits)
qed

lemma run_keeps_resolution:
  "resolved t \<Longrightarrow> start_result (run N D acts t) = start_result t"
proof (induction acts arbitrary: t)
  case Nil
  show ?case by simp
next
  case (Cons a acts)
  show ?case
  proof (cases a)
    case (Read r)
    with Cons.prems Cons.IH [of "if running t then process_turn N D r t else t"]
    show ?thesis by (auto simp: turn_keeps_resolution)
  next
    case CloseBegin
    with Cons.prems Cons.IH [of "close_begin t"] show ?thesis by (simp add: close_keeps_start)
  next
    case CloseEnd
    with Cons.prems Cons.IH [of "close_end t"] show ?thesis by (simp add: close_keeps_start)
  qed
qed

text \<open>The stream after steps that come before any endpoint event.\<close>

lemma run_before_endpoint:
  assumes "\<forall>a \<in> set pre. before_endpoint a"
  shows "run N D pre (open_stream t) =
           (open_stream t)\<lparr> abortController := CloseBegin \<notin> set pre,
              reader := CloseEnd \<notin> set pre,
              didEmitClose := CloseEnd \<in> set pre,
              aborted := CloseBegin \<in> set pre,
              cli_calls := cli_calls t @ (if CloseEnd \<in> set pre then [OnClose] else []) \<rparr>"
proof -
  have "\<forall>a \<in> set pre. \<forall>r. a = Read r \<longrightarrow>
          \<not> running (open_stream t) \<or> (not_endpoint r \<and> \<not> resolved (open_stream t))"
    using assms by (auto simp: before_endpoint_def open_stream_def)
  from run_inert [OF this] show ?thesis by (simp add: open_stream_def)
qed

text \<open>The stream after a turn that rejected the promise.\<close>

lemma run_after_rejection:
  assumes "\<not> running s" and "\<not> abortController s"
  shows "start_result (run N D rest s) = start_result s"
    and "cli_calls (run N D rest s) =
           cli_calls s @ (if CloseEnd \<in> set rest \<and> \<not> didEmitClose s then [OnClose] else [])"
proof -
  have "\<forall>a \<in> set rest. \<forall>r. a = Read r \<longrightarrow> \<not> running s \<or> (not_endpoint r \<and> \<not> resolved s)"
    using assms by simp
  from run_inert [OF this, of N D]
  show "start_result (run N D rest s) = start_result s"
    and "cli_calls (run N D rest s) =
           cli_calls s @ (if CloseEnd \<in> set rest \<and> \<not> didEmitClose s then [OnClose] else [])"
    by simp_all
qed

lemma run_rejecting_turn:
  assumes pre: "\<forall>a \<in> set pre. before_endpoint a"
    and turn: "process_turn N D r (run N D pre (open_stream t)) = finish err ab s'"
    and s': "\<not> resolved s'"
      "cli_calls s' = cli_calls (run N D pre (open_stream t))"
      "didEmitClose s' = didEmitClose (run N D pre (open_stream t))"
  shows "start_result (run N D (pre @ Read r # rest) (open_stream t))
           = Some (Some (case err of
                           Some e \<Rightarrow> e
                         | None \<Rightarrow>
                             if ab then Error ''SSE connection aborted''
                             else Error ''SSE connection ended before receiving endpoint event''))"
    and "cli_calls (run N D (pre @ Read r # rest) (open_stream t))
           = cli_calls t @ (if CloseEnd \<in> set pre \<union> set rest then [OnClose] else [])"
proof -
  define s where "s = run N D pre (open_stream t)"
  have s: "running s" "cli_calls s = cli_calls t @ (if CloseEnd \<in> set pre then [OnClose] else [])"
    "didEmitClose s = (CloseEnd \<in> set pre)"
    unfolding s_def run_before_endpoint [OF pre] by (simp_all add: open_stream_def)
  define f where "f = finish err ab s'"
  have f: "\<not> running f" "\<not> abortController f" "cli_calls f = cli_calls s"
    "didEmitClose f = didEmitClose s"
    "start_result f = Some (Some (case err of
                           Some e \<Rightarrow> e
                         | None \<Rightarrow>
                             if ab then Error ''SSE connection aborted''
                             else Error ''SSE connection ended before receiving endpoint event''))"
    unfolding f_def using s' by (simp_all add: finish_unresolved s_def)
  have split: "run N D (pre @ Read r # rest) (open_stream t) = run N D rest f"
    using turn s(1) by (simp add: run_append s_def f_def)
  show "start_result (run N D (pre @ Read r # rest) (open_stream t))
           = Some (Some (case err of
                           Some e \<Rightarrow> e
                         | None \<Rightarrow>
                             if ab then Error ''SSE connection aborted''
                             else Error ''SSE connection ended before receiving endpoint event''))"
    using run_after_rejection(1) [OF f(1,2), of N D rest] by (simp add: split f(5))
  show "cli_calls (run N D (pre @ Read r # rest) (open_stream t))
           = cli_calls t @ (if CloseEnd \<in> set pre \<union> set rest then [OnClose] else [])"
    using run_after_rejection(2) [OF f(1,2), of N D rest] by (simp add: split f(3,4) s(2,3))
qed

text \<open>
  C5 (amended). For a freshly opened stream, with reads and calls of \<open>close\<close> in any order:
  the promise of \<open>start\<close> is fulfilled only if an endpoint event was read whose URL, resolved
  against the connection URL, has the origin of the connection, and it is fulfilled by the
  first endpoint event when that event has this origin. If, before any endpoint event, the
  stream ends or the read throws, or if the first endpoint event resolves to another origin,
  the promise is rejected with an error (\<open>SSE connection aborted\<close> when \<open>close\<close> had aborted the
  stream or the read threw an abort error). The stream itself invokes no callback then:
  \<open>onclose\<close> is invoked, once, exactly when a call of \<open>close\<close> has run to its end.
\<close>

theorem start_settles_by_first_endpoint_or_end:
  assumes "\<forall>a \<in> set pre. before_endpoint a"
  shows "(start_result (run N D acts (open_stream t)) = Some None \<longrightarrow>
            (\<exists>ev data u. Read (Value ev data) \<in> set acts \<and> eventName ev = ''endpoint''
               \<and> N data = Inr u \<and> origin u = origin (url t)))
       \<and> (eventName ev = ''endpoint'' \<and> N data = Inr u \<and> origin u = origin (url t) \<longrightarrow>
            start_result (run N D (pre @ Read (Value ev data) # rest) (open_stream t)) = Some None)
       \<and> start_result (run N D (pre @ Read Done # rest) (open_stream t))
            = Some (Some (if CloseBegin \<in> set pre then Error ''SSE connection aborted''
                          else Error ''SSE connection ended before receiving endpoint event''))
       \<and> cli_calls (run N D (pre @ Read Done # rest) (open_stream t))
            = cli_calls t @ (if CloseEnd \<in> set pre \<union> set rest then [OnClose] else [])
       \<and> start_result (run N D (pre @ Read (ReadThrows e) # rest) (open_stream t))
            = Some (Some (if is_AbortError e \<or> CloseBegin \<in> set pre
                          then Error ''SSE connection aborted'' else e))
       \<and> cli_calls (run N D (pre @ Read (ReadThrows e) # rest) (open_stream t))
            = cli_calls t @ (if CloseEnd \<in> set pre \<union> set rest then [OnClose] else [])
       \<and> (eventName ev = ''endpoint'' \<and> N data = Inr u \<and> origin u \<noteq> origin (url t) \<longrightarrow>
            start_result (run N D (pre @ Read (Value ev data) # rest) (open_stream t))
              = Some (Some (Error (''Endpoint origin does not match connection origin: ''
                                   @ origin u)))
            \<and> cli_calls (run N D (pre @ Read (Value ev data) # rest) (open_stream t))
              = cli_calls t @ (if CloseEnd \<in> set pre \<union> set rest then [OnClose] else []))"
proof -
  define s where "s = run N D pre (open_stream t)"
  have s: "running s" "\<not> resolved s" "aborted s = (CloseBegin \<in> set pre)" "url s = url t"
    unfolding s_def run_before_endpoint [OF assms] by (simp_all add: open_stream_def)
  have nec: "start_result (run N D acts (open_stream t)) = Some None \<longrightarrow>
            (\<exists>ev data u. Read (Value ev data) \<in> set acts \<and> eventName ev = ''endpoint''
               \<and> N data = Inr u \<and> origin u = origin (url t))"
    using run_resolved_only_by_endpoint [of N D acts "open_stream t"]
    by (simp add: open_stream_def)
  have suf: "start_result (run N D (pre @ Read (Value ev data) # rest) (open_stream t)) = Some None"
    if "eventName ev = ''endpoint''" "N data = Inr u" "origin u = origin (url t)"
  proof -
    have turn: "process_turn N D (Value ev data) s
                  = s\<lparr> endpointUrl := Some u, resolved := True, start_result := Some None \<rparr>"
      using that s by (simp add: process_turn_def Let_def resolveOnce_def)
    have "run N D (pre @ Read (Value ev data) # rest) (open_stream t)
            = run N D rest (s\<lparr> endpointUrl := Some u, resolved := True, start_result := Some None \<rparr>)"
      using s(1) turn by (simp add: run_append s_def)
    then show ?thesis by (simp add: run_keeps_resolution)
  qed
  have d: "process_turn N D Done s = finish None (CloseBegin \<in> set pre) s"
    using s by (simp add: process_turn_def)
  have th: "process_turn N D (ReadThrows e) s
              = finish (if is_AbortError e \<or> CloseBegin \<in> set pre then None else Some e)
                  (is_AbortError e \<or> CloseBegin \<in> set pre) s"
    using s by (simp add: process_turn_def)
  have mm: "process_turn N D (Value ev data) s
              = finish (Some (Error (''Endpoint origin does not match connection origin: ''
                                     @ origin u))) False (s\<lparr> endpointUrl := Some u \<rparr>)"
    if "eventName ev = ''endpoint''" "N data = Inr u" "origin u \<noteq> origin (url t)"
    using that s by (simp add: process_turn_def Let_def)
  note rd = run_rejecting_turn [OF assms d [unfolded s_def], of rest, simplified s_def [symmetric]]
  note rt = run_rejecting_turn [OF assms th [unfolded s_def], of rest, simplified s_def [symmetric]]
  show ?thesis
    using nec suf rd rt s(2)
      run_rejecting_turn [OF assms mm [unfolded s_def], of rest]
    by (auto simp: s_def)
qed

theorem start_settles_by_first_endpoint_or_end_witness:
  "start_result (run (\<lambda>s. Inr url0) (\<lambda>s. Inr (0::nat))
      ([Read (Value None ''{}'')] @ Read (Value (Some ''endpoint'') ''/messages'') # [])
      (open_stream client0))
     = Some None
   \<and> start_result (run (\<lambda>s. Inr url0) (\<lambda>s. Inr (0::nat))
      ([Read (Value None ''{}'')] @ Read Done # []) (open_stream client0))
     = Some (Some (Error ''SSE connection ended before receiving endpoint event''))
   \<and> cli_calls (run (\<lambda>s. Inr url0) (\<lambda>s. Inr (0::nat))
      ([Read (Value None ''{}'')] @ Read Done # []) (open_stream client0))
     = []"
  using start_settles_by_first_endpoint_or_end
    [where pre = "[Read (Value None ''{}'')]" and N = "\<lambda>s. Inr url0" and D = "\<lambda>s. Inr (0::nat)"
       and acts = "[]" and t = client0 and ev = "Some ''endpoint''" and data = "''/messages''"
       and u = url0 and rest = "[]" and e = "External ''x'' ''y''"]
  by (simp add: before_endpoint_def not_endpoint_def eventName_def client0_def)

section \<open>Sending over the SSE client\<close>

lemma ok_401: "\<not> ok 401"
  by (simp add: ok_def)

lemma send_Nil: "endpointUrl t = Some ep \<Longrightarrow> send t [] as = None"
  by (subst send.simps) simp

lemma send_throws:
  "endpointUrl t = Some ep \<Longrightarrow>
   send t (FetchThrows e # fs) as =
     Some (Some e, t\<lparr> io := io t @ [POST], cli_calls := cli_calls t @ [OnError e] \<rparr>)"
  by (subst send.simps) (simp add: Let_def)

lemma send_ok:
  "endpointUrl t = Some ep \<Longrightarrow> ok status \<Longrightarrow>
   send t (Response status b # fs) as = Some (None, t\<lparr> io := io t @ [POST] \<rparr>)"
  by (subst send.simps) (simp add: Let_def)

lemma send_fatal:
  "endpointUrl t = Some ep \<Longrightarrow> \<not> ok status \<Longrightarrow> \<not> (status = 401 \<and> authProvider t) \<Longrightarrow>
   send t (Response status b # fs) as =
     Some (Some (PostError status b),
           t\<lparr> io := io t @ [POST], cli_calls := cli_calls t @ [OnError (PostError status b)] \<rparr>)"
  by (subst send.simps) (auto simp: Let_def)

lemma send_401_pending:
  "endpointUrl t = Some ep \<Longrightarrow> authProvider t \<Longrightarrow> send t (Response 401 b # fs) [] = None"
  by (subst send.simps) (simp add: Let_def ok_401)

lemma send_401_authorized:
  "endpointUrl t = Some ep \<Longrightarrow> authProvider t \<Longrightarrow>
   send t (Response 401 b # fs) (AUTHORIZED # as) = send (t\<lparr> io := io t @ [POST, AUTH] \<rparr>) fs as"
  by (subst send.simps) (simp add: Let_def ok_401)

lemma send_401_redirect:
  "endpointUrl t = Some ep \<Longrightarrow> authProvider t \<Longrightarrow>
   send t (Response 401 b # fs) (REDIRECT # as) =
     Some (Some (UnauthorizedError None),
           t\<lparr> io := io t @ [POST, AUTH],
              cli_calls := cli_calls t @ [OnError (UnauthorizedError None)] \<rparr>)"
  by (subst send.simps) (simp add: Let_def ok_401)

lemma send_401_auth_throws:
  "endpointUrl t = Some ep \<Longrightarrow> authProvider t \<Longrightarrow>
   send t (Response 401 b # fs) (AuthThrows e # as) =
     Some (Some e, t\<lparr> io := io t @ [POST, AUTH], cli_calls := cli_calls t @ [OnError e] \<rparr>)"
  by (subst send.simps) (simp add: Let_def ok_401)

lemma send_cycles:
  assumes "endpointUrl t = Some ep" and "authProvider t"
  shows "send t (replicate n (Response 401 b) @ fs) (replicate n AUTHORIZED @ as)
           = send (t\<lparr> io := io t @ concat (replicate n [POST, AUTH]) \<rparr>) fs as"
  using assms
proof (induction n arbitrary: t)
  case 0
  show ?case by simp
next
  case (Suc n)
  have "send t (replicate (Suc n) (Response 401 b) @ fs) (replicate (Suc n) AUTHORIZED @ as)
          = send (t\<lparr> io := io t @ [POST, AUTH] \<rparr>)
              (replicate n (Response 401 b) @ fs) (replicate n AUTHORIZED @ as)"
    using Suc.prems by (simp add: send_401_authorized)
  also have "\<dots> = send (t\<lparr> io := io t @ [POST, AUTH] \<rparr>
                         \<lparr> io := io (t\<lparr> io := io t @ [POST, AUTH] \<rparr>) @ concat (replicate n [POST, AUTH]) \<rparr>) fs as"
    using Suc.prems by (intro Suc.IH) simp_all
  finally show ?case by simp
qed

lemma send_reports_once:
  "endpointUrl t = Some ep \<Longrightarrow> send t fs as = Some (res, t') \<Longrightarrow>
   cli_calls t' = cli_calls t @ (case res of None \<Rightarrow> [] | Some e \<Rightarrow> [OnError e])"
proof (induction fs arbitrary: t as)
  case Nil
  then show ?case by (simp add: send_Nil)
next
  case (Cons f fs)
  note ep = Cons.prems(1) and res = Cons.prems(2)
  show ?case
  proof (cases f)
    case (FetchThrows e)
    with ep res show ?thesis by (auto simp: send_throws)
  next
    case (Response status b)
    show ?thesis
    proof (cases "ok status")
      case True
      with ep res Response show ?thesis by (auto simp: send_ok)
    next
      case False
      show ?thesis
      proof (cases "status = 401 \<and> authProvider t")
        case False
        with ep res Response \<open>\<not> ok status\<close> show ?thesis by (auto simp: send_fatal)
      next
        case True
        show ?thesis
        proof (cases as)
          case Nil
          with ep res Response True show ?thesis by (simp add: send_401_pending)
        next
          case (Cons a as')
          show ?thesis
          proof (cases a)
            case AUTHORIZED
            with ep res Response True Cons
            have "send (t\<lparr> io := io t @ [POST, AUTH] \<rparr>) fs as' = Some (res, t')"
              by (simp add: send_401_authorized)
            with Cons.IH [of "t\<lparr> io := io t @ [POST, AUTH] \<rparr>" as'] ep
            show ?thesis by simp
          next
            case REDIRECT
            with ep res Response True Cons show ?thesis by (auto simp: send_401_redirect)
          next
            case (AuthThrows e)
            with ep res Response True Cons show ?thesis by (auto simp: send_401_auth_throws)
          qed
        qed
      qed
    qed
  qed
qed

text \<open>
  C2 (as stated). A second consecutive 401 makes \<open>send\<close> fail with no further retry. With an
  auth provider that answers \<open>AUTHORIZED\<close> each time, the resend that receives 401 again
  authorises again and sends a third time, here successfully.
\<close>

theorem send_second_401_counterexample:
  "send client1 [Response 401 None, Response 401 None, Response 200 None]
        [AUTHORIZED, AUTHORIZED]
     = Some (None, client1\<lparr> io := [POST, AUTH, POST, AUTH, POST] \<rparr>)"
  by (simp add: client1_def client0_def send.simps ok_def Let_def)

text \<open>
  C2 (amended). With a learned endpoint and an auth provider, every 401 response triggers one
  authorisation attempt and, when it answers \<open>AUTHORIZED\<close>, one resend of the message; this
  repeats for as many consecutive 401 responses as arrive. \<open>send\<close> fails, with its error
  given to the caller and to \<open>onerror\<close> exactly once, when the authorisation attempt does not
  answer \<open>AUTHORIZED\<close> or throws, and when the response is any other non-2xx status, or a 401
  without an auth provider.
\<close>

theorem send_reauthenticates_on_every_401:
  assumes "endpointUrl t = Some ep"
  shows "(authProvider t \<longrightarrow>
            send t (replicate n (Response 401 b) @ fs) (replicate n AUTHORIZED @ as)
              = send (t\<lparr> io := io t @ concat (replicate n [POST, AUTH]) \<rparr>) fs as)
       \<and> (authProvider t \<longrightarrow>
            send t (Response 401 b # fs) (REDIRECT # as)
              = Some (Some (UnauthorizedError None),
                      t\<lparr> io := io t @ [POST, AUTH],
                         cli_calls := cli_calls t @ [OnError (UnauthorizedError None)] \<rparr>))
       \<and> (authProvider t \<longrightarrow>
            send t (Response 401 b # fs) (AuthThrows e # as)
              = Some (Some e, t\<lparr> io := io t @ [POST, AUTH],
                                  cli_calls := cli_calls t @ [OnError e] \<rparr>))
       \<and> (\<not> ok status \<and> \<not> (status = 401 \<and> authProvider t) \<longrightarrow>
            send t (Response status b # fs) as
              = Some (Some (PostError status b),
                      t\<lparr> io := io t @ [POST],
                         cli_calls := cli_calls t @ [OnError (PostError status b)] \<rparr>))
       \<and> (\<forall>err t'. send t fs as = Some (Some err, t') \<longrightarrow>
            cli_calls t' = cli_calls t @ [OnError err])"
proof -
  have "cli_calls t' = cli_calls t @ [OnError err]"
    if "send t fs as = Some (Some err, t')" for err t'
    using send_reports_once [OF assms that] by simp
  then show ?thesis
    using assms
    by (simp add: send_cycles send_401_redirect send_401_auth_throws send_fatal)
qed

theorem send_reauthenticates_on_every_401_witness:
  "send client1 (replicate 3 (Response 401 None) @ [Response 200 None])
        (replicate 3 AUTHORIZED @ [])
     = Some (None, client1\<lparr> io := [POST, AUTH, POST, AUTH, POST, AUTH, POST] \<rparr>)
   \<and> send client1 [Response 401 None] [REDIRECT]
     = Some (Some (UnauthorizedError None),
             client1\<lparr> io := [POST, AUTH], cli_calls := [OnError (UnauthorizedError None)] \<rparr>)"
  using send_reauthenticates_on_every_401
    [where t = client1 and ep = url0 and n = 3 and b = None and fs = "[Response 200 None]"
       and as = "[]" and e = "Error []" and status = 500]
    send_reauthenticates_on_every_401
    [where t = client1 and ep = url0 and n = 0 and b = None and fs = "[]" and as = "[]"
       and e = "Error []" and status = 500]
  by (simp add: client1_def client0_def send_ok ok_def numeral_3_eq_3)

section \<open>Inbound POST requests of the SSE server\<close>

lemma not_allowed_iff:
  "not_allowed allowed header \<longleftrightarrow> \<not> (\<exists>h. header = Some h \<and> h \<noteq> [] \<and> h \<in> set allowed)"
  by (auto simp: not_allowed_def split: option.splits)

lemma validate_passes_iff:
  assumes "enableDnsRebindingProtection opts = Some True"
  shows "validateRequestHeaders opts hs = None \<longleftrightarrow>
           (\<forall>a. allowedHosts opts = Some a \<and> a \<noteq> [] \<longrightarrow>
                (\<exists>h. getHeader hs ''host'' = Some h \<and> h \<noteq> [] \<and> h \<in> set a))
         \<and> (\<forall>a. allowedOrigins opts = Some a \<and> a \<noteq> [] \<longrightarrow>
                (\<exists>h. getHeader hs ''origin'' = Some h \<and> h \<noteq> [] \<and> h \<in> set a))"
  using assms
  by (auto simp: validateRequestHeaders_def not_allowed_iff split: option.splits)

lemma validate_origin_rejected:
  assumes "enableDnsRebindingProtection opts = Some True"
    and "allowedOrigins opts = Some a" and "a \<noteq> []"
    and "\<forall>h. getHeader hs ''origin'' = Some h \<longrightarrow> h \<notin> set a"
  shows "validateRequestHeaders opts hs =
           Some (if \<exists>b. allowedHosts opts = Some b \<and> b \<noteq> []
                       \<and> (\<forall>h. getHeader hs ''host'' = Some h \<longrightarrow> h = [] \<or> h \<notin> set b)
                 then ''Invalid Host header: '' @ interpolate (getHeader hs ''host'')
                 else ''Invalid Origin header: '' @ interpolate (getHeader hs ''origin''))"
  using assms
  by (auto simp: validateRequestHeaders_def not_allowed_def split: option.splits)

text \<open>
  C4. With DNS-rebinding protection enabled and the stream established, the validation passes
  exactly when the Host header is in \<open>allowedHosts\<close>, whenever that list is non-empty, and the
  Origin header is in \<open>allowedOrigins\<close>, whenever that list is non-empty: an absent or empty
  list switches its check off. A POST whose Origin is not in a non-empty \<open>allowedOrigins\<close> is
  answered 403 with the message of the failed check (that of the Host check when this one
  fails first) and the same message goes to \<open>onerror\<close>; nothing else of the transport
  changes, so the stream stays open. With an Origin in the list, and the Host check passing
  or switched off, the validation passes.
\<close>

theorem dns_rebinding_checks:
  assumes "enableDnsRebindingProtection (options t) = Some True" and "sseResponse t"
  shows "(validateRequestHeaders (options t) (headers req) = None \<longleftrightarrow>
            (\<forall>a. allowedHosts (options t) = Some a \<and> a \<noteq> [] \<longrightarrow>
                 (\<exists>h. getHeader (headers req) ''host'' = Some h \<and> h \<noteq> [] \<and> h \<in> set a))
          \<and> (\<forall>a. allowedOrigins (options t) = Some a \<and> a \<noteq> [] \<longrightarrow>
                 (\<exists>h. getHeader (headers req) ''origin'' = Some h \<and> h \<noteq> [] \<and> h \<in> set a)))
       \<and> (\<forall>a msg. allowedOrigins (options t) = Some a \<and> a \<noteq> []
               \<and> (\<forall>h. getHeader (headers req) ''origin'' = Some h \<longrightarrow> h \<notin> set a)
               \<and> msg = (if \<exists>b. allowedHosts (options t) = Some b \<and> b \<noteq> []
                               \<and> (\<forall>h. getHeader (headers req) ''host'' = Some h
                                        \<longrightarrow> h = [] \<or> h \<notin> set b)
                         then ''Invalid Host header: ''
                                @ interpolate (getHeader (headers req) ''host'')
                         else ''Invalid Origin header: ''
                                @ interpolate (getHeader (headers req) ''origin''))
             \<longrightarrow> handlePostMessage C t req parsedBody
                   = (Some (403, Text msg), None,
                      t\<lparr> srv_calls := srv_calls t @ [OnError (Error msg)] \<rparr>))"
proof -
  have "handlePostMessage C t req parsedBody
          = (Some (403, Text msg), None, t\<lparr> srv_calls := srv_calls t @ [OnError (Error msg)] \<rparr>)"
    if "allowedOrigins (options t) = Some a" "a \<noteq> []"
       "\<forall>h. getHeader (headers req) ''origin'' = Some h \<longrightarrow> h \<notin> set a"
       "msg = (if \<exists>b. allowedHosts (options t) = Some b \<and> b \<noteq> []
                               \<and> (\<forall>h. getHeader (headers req) ''host'' = Some h
                                        \<longrightarrow> h = [] \<or> h \<notin> set b)
                         then ''Invalid Host header: ''
                                @ interpolate (getHeader (headers req) ''host'')
                         else ''Invalid Origin header: ''
                                @ interpolate (getHeader (headers req) ''origin''))" for a msg
    using validate_origin_rejected [OF assms(1) that(1,2,3)] assms(2) that(4)
    by (simp add: handlePostMessage_def)
  with validate_passes_iff [OF assms(1), of "headers req"] show ?thesis by blast
qed

lemma server0_simps:
  "sseResponse server0" "options server0 = options0" "srv_calls server0 = []"
  by (simp_all add: server0_def SSEServerTransport_start_def SSEServerTransport_new_def Let_def)

lemma request0_simps:
  "getHeader (headers (request0 orig src)) ''origin'' = Some orig"
  "getHeader (headers (request0 orig src)) ''host'' = None"
  "getHeader (headers (request0 orig src)) ''content-type'' = Some ''application/json''"
  "body_source (request0 orig src) = src"
  by (simp_all add: request0_def)

theorem dns_rebinding_checks_witness:
  "handlePostMessage collab0 server0 (request0 ''https://b'' NoReader) None
     = (Some (403, Text ''Invalid Origin header: https://b''), None,
        server0\<lparr> srv_calls := [OnError (Error ''Invalid Origin header: https://b'')] \<rparr>)
   \<and> validateRequestHeaders (options server0) (headers (request0 ''https://a'' NoReader)) = None"
proof -
  have en: "enableDnsRebindingProtection (options server0) = Some True"
    by (simp add: server0_simps options0_def)
  have conn: "sseResponse server0"
    by (simp add: server0_simps)
  have first: "handlePostMessage collab0 server0 (request0 ''https://b'' NoReader) None
     = (Some (403, Text ''Invalid Origin header: https://b''), None,
        server0\<lparr> srv_calls := [OnError (Error ''Invalid Origin header: https://b'')] \<rparr>)"
    using dns_rebinding_checks [OF en conn, of "request0 ''https://b'' NoReader" collab0 None]
    by (simp add: server0_simps options0_def request0_simps interpolate_def)
  have "validateRequestHeaders (options server0) (headers (request0 ''https://a'' NoReader)) = None"
    using dns_rebinding_checks [OF en conn, of "request0 ''https://a'' NoReader" collab0 None]
    by (simp add: server0_simps options0_def request0_simps)
  with first show ?thesis by simp
qed

section \<open>Opening the stream of the SSE server\<close>

lemma searchParams_set_once:
  "filter (\<lambda>p. fst p = name) (searchParams_set name v ps) = [(name, v)]"
proof (induction ps)
  case Nil
  show ?case by simp
next
  case (Cons p ps)
  have "filter (\<lambda>p. fst p = name) (filter (\<lambda>q. fst q \<noteq> name) ps) = []"
    by (induction ps) auto
  with Cons show ?case by simp
qed

lemma searchParams_set_others:
  "k \<noteq> name \<Longrightarrow>
   filter (\<lambda>p. fst p = k) (searchParams_set name v ps) = filter (\<lambda>p. fst p = k) ps"
proof (induction ps)
  case Nil
  then show ?case by simp
next
  case (Cons p ps)
  have "filter (\<lambda>p. fst p = k) (filter (\<lambda>q. fst q \<noteq> name) ps) = filter (\<lambda>p. fst p = k) ps"
    using Cons.prems by (induction ps) auto
  with Cons show ?case by auto
qed

text \<open>Without the dedicated generator the random draws fill the version-4 template: each
  \<open>x\<close> is the digit of a draw of its own, the \<open>y\<close> is the variant digit made from one more draw,
  and two identifiers are equal only if they were made from the same draws.\<close>

lemma variant_digit: "toString16 ((r AND 0x3) OR 0x8) \<in> set ''89ab''"
proof -
  have lt: "unat r < 16" using unsigned_less [of r, where ?'a = nat] by simp
  then have mem: "unat r \<in> {0, 1, 2, 3, 4, 5, 6, 7, 8, 9, 10, 11, 12, 13, 14, 15}"
    by auto arith
  have r: "r = of_nat (unat r)" by simp
  consider "unat r = 0" | "unat r = 1" | "unat r = 2" | "unat r = 3" | "unat r = 4"
    | "unat r = 5" | "unat r = 6" | "unat r = 7" | "unat r = 8" | "unat r = 9"
    | "unat r = 10" | "unat r = 11" | "unat r = 12" | "unat r = 13" | "unat r = 14"
    | "unat r = 15"
    using mem by auto
  then show ?thesis
  proof cases
    case 1 with r have "r = 0" by simp then show ?thesis by (simp add: toString16_def) next
    case 2 with r have "r = 1" by simp then show ?thesis by (simp add: toString16_def) next
    case 3 with r have "r = 2" by simp then show ?thesis by (simp add: toString16_def) next
    case 4 with r have "r = 3" by simp then show ?thesis by (simp add: toString16_def) next
    case 5 with r have "r = 4" by simp then show ?thesis by (simp add: toString16_def) next
    case 6 with r have "r = 5" by simp then show ?thesis by (simp add: toString16_def) next
    case 7 with r have "r = 6" by simp then show ?thesis by (simp add: toString16_def) next
    case 8 with r have "r = 7" by simp then show ?thesis by (simp add: toString16_def) next
    case 9 with r have "r = 8" by simp then show ?thesis by (simp add: toString16_def) next
    case 10 with r have "r = 9" by simp then show ?thesis by (simp add: toString16_def) next
    case 11 with r have "r = 10" by simp then show ?thesis by (simp add: toString16_def) next
    case 12 with r have "r = 11" by simp then show ?thesis by (simp add: toString16_def) next
    case 13 with r have "r = 12" by simp then show ?thesis by (simp add: toString16_def) next
    case 14 with r have "r = 13" by simp then show ?thesis by (simp add: toString16_def) next
    case 15 with r have "r = 14" by simp then show ?thesis by (simp add: toString16_def) next
    case 16 with r have "r = 15" by simp then show ?thesis by (simp add: toString16_def)
  qed
qed

lemma generateSessionId_polyfill:
  "generateSessionId None rand =
     map (\<lambda>i. toString16 (rand i)) [0..<8] @ ''-''
     @ map (\<lambda>i. toString16 (rand i)) [8..<12] @ ''-4''
     @ map (\<lambda>i. toString16 (rand i)) [12..<15] @ ''-''
     @ [toString16 ((rand 15 AND 0x3) OR 0x8)]
     @ map (\<lambda>i. toString16 (rand i)) [16..<19] @ ''-''
     @ map (\<lambda>i. toString16 (rand i)) [19..<31]"
  by (simp add: generateSessionId_def Let_def eval_nat_numeral upt_rec)

lemma toString16_inject: "toString16 a = toString16 b \<longleftrightarrow> a = b"
proof -
  have d: "distinct ''0123456789abcdef''" by simp
  have la: "unat a < length ''0123456789abcdef''"
    using unsigned_less [of a, where ?'a = nat] by simp
  have lb: "unat b < length ''0123456789abcdef''"
    using unsigned_less [of b, where ?'a = nat] by simp
  have "toString16 a = toString16 b \<longleftrightarrow> unat a = unat b"
    unfolding toString16_def using nth_eq_iff_index_eq [OF d la lb] .
  then show ?thesis by (simp add: word_unat_eq_iff)
qed

lemma variant_inject:
  "(a AND 0x3) OR 0x8 = (b AND 0x3) OR (0x8 :: 4 word) \<longleftrightarrow> a AND 0x3 = b AND 0x3"
proof
  assume eq: "(a AND 0x3) OR 0x8 = (b AND 0x3) OR (0x8 :: 4 word)"
  have "((a AND 0x3) OR 0x8) AND 0x3 = a AND (0x3 :: 4 word)" for a :: "4 word"
    by (simp add: bit.conj_disj_distrib2 and.assoc)
  with eq show "a AND 0x3 = b AND 0x3" by metis
next
  assume "a AND 0x3 = b AND 0x3"
  then show "(a AND 0x3) OR 0x8 = (b AND 0x3) OR (0x8 :: 4 word)" by simp
qed

lemma generateSessionId_inject:
  "generateSessionId None rand = generateSessionId None rand' \<longleftrightarrow>
     (\<forall>i<31. i \<noteq> 15 \<longrightarrow> rand i = rand' i) \<and> rand 15 AND 0x3 = rand' 15 AND 0x3"
  by (simp add: generateSessionId_def Let_def eval_nat_numeral All_less_Suc
        toString16_inject variant_inject)
     blast

text \<open>
  C6. \<open>start\<close> on a transport that is not started, whose endpoint parses, succeeds and
  makes exactly two calls on the response: \<open>writeHead\<close> and one \<open>write\<close> of a single event
  named \<open>endpoint\<close>. Its data is the pathname, the search and the hash of the endpoint URL
  after \<open>sessionId\<close> has been set to the transport's session id, so that this parameter
  occurs exactly once, with that value. The session id is what \<open>generateSessionId\<close> gave when
  the transport was constructed: the UUID of \<open>crypto.randomUUID\<close> when that generator exists,
  and otherwise the version-4 template filled from 31 random draws of the instance, with the
  version digit 4 and a variant digit among 8, 9, a and b; the draws determine the identifier
  and every bit of them that is used shows in it, so that two instances get the same
  identifier only from the same draws.
\<close>

theorem start_writes_one_endpoint_event:
  assumes "\<not> sseResponse t" and "newURL (endpoint t) = Inr u"
    and "u' = u\<lparr> searchParams := searchParams_set ''sessionId'' (sessionId t) (searchParams u) \<rparr>"
  shows "fst (SSEServerTransport_start newURL enc t) = None
       \<and> res_ops (snd (SSEServerTransport_start newURL enc t))
           = res_ops t @
             [WriteHead 200 [(''Content-Type'', ''text/event-stream''),
                             (''Cache-Control'', ''no-cache, no-transform''),
                             (''Connection'', ''keep-alive'')],
              Write (''event: endpoint'' @ [nl] @ ''data: ''
                     @ pathname u @ search enc u' @ hash u @ [nl, nl])]
       \<and> search enc u' = ''?'' @ join_amp (map (\<lambda>p. enc (fst p) @ ''='' @ enc (snd p)) (searchParams u'))
       \<and> filter (\<lambda>p. fst p = ''sessionId'') (searchParams u') = [(''sessionId'', sessionId t)]
       \<and> sessionId (SSEServerTransport_new randomUUID rand ep has_on opts
                      :: 'm SSEServerTransport)
           = generateSessionId randomUUID rand
       \<and> generateSessionId (Some uuid) rand = uuid
       \<and> generateSessionId None rand =
            map (\<lambda>i. toString16 (rand i)) [0..<8] @ ''-''
            @ map (\<lambda>i. toString16 (rand i)) [8..<12] @ ''-4''
            @ map (\<lambda>i. toString16 (rand i)) [12..<15] @ ''-''
            @ [toString16 ((rand 15 AND 0x3) OR 0x8)]
            @ map (\<lambda>i. toString16 (rand i)) [16..<19] @ ''-''
            @ map (\<lambda>i. toString16 (rand i)) [19..<31]
       \<and> toString16 ((rand 15 AND 0x3) OR 0x8) \<in> set ''89ab''
       \<and> (generateSessionId None rand = generateSessionId None rand' \<longleftrightarrow>
            (\<forall>i<31. i \<noteq> 15 \<longrightarrow> rand i = rand' i) \<and> rand 15 AND 0x3 = rand' 15 AND 0x3)"
proof -
  have ne: "searchParams u' \<noteq> []"
    using searchParams_set_once [of "''sessionId''" "sessionId t" "searchParams u"] assms(3)
    by auto
  have start: "fst (SSEServerTransport_start newURL enc t) = None
       \<and> res_ops (snd (SSEServerTransport_start newURL enc t))
           = res_ops t @
             [WriteHead 200 [(''Content-Type'', ''text/event-stream''),
                             (''Cache-Control'', ''no-cache, no-transform''),
                             (''Connection'', ''keep-alive'')],
              Write (''event: endpoint'' @ [nl] @ ''data: ''
                     @ pathname u @ search enc u' @ hash u @ [nl, nl])]
       \<and> search enc u' = ''?'' @ join_amp (map (\<lambda>p. enc (fst p) @ ''='' @ enc (snd p)) (searchParams u'))
       \<and> filter (\<lambda>p. fst p = ''sessionId'') (searchParams u') = [(''sessionId'', sessionId t)]"
    using assms ne
    by (simp add: SSEServerTransport_start_def Let_def search_def searchParams_set_once)
  have mint: "sessionId (SSEServerTransport_new randomUUID rand ep has_on opts
                      :: 'm SSEServerTransport)
           = generateSessionId randomUUID rand
       \<and> generateSessionId (Some uuid) rand = uuid"
    by (simp add: SSEServerTransport_new_def generateSessionId_def)
  from start mint generateSessionId_polyfill [of rand] variant_digit [of "rand 15"]
    generateSessionId_inject [of rand rand']
  show ?thesis by blast
qed

theorem start_writes_one_endpoint_event_witness:
  "res_ops (snd (SSEServerTransport_start (\<lambda>s. Inr url1) (\<lambda>s. s) server1))
     = [WriteHead 200 [(''Content-Type'', ''text/event-stream''),
                       (''Cache-Control'', ''no-cache, no-transform''),
                       (''Connection'', ''keep-alive'')],
        Write (''event: endpoint'' @ [nl]
               @ ''data: /messages?a=1&sessionId=1b4e28ba-2fa1-41d2-883f-0016d3cca427#top''
               @ [nl, nl])]
   \<and> res_ops (snd (SSEServerTransport_start (\<lambda>s. Inr url0) (\<lambda>s. s) server2))
     = [WriteHead 200 [(''Content-Type'', ''text/event-stream''),
                       (''Cache-Control'', ''no-cache, no-transform''),
                       (''Connection'', ''keep-alive'')],
        Write (''event: endpoint'' @ [nl]
               @ ''data: /messages?sessionId=01234567-89ab-4cde-b012-3456789abcde''
               @ [nl, nl])]"
proof -
  have one: "res_ops (snd (SSEServerTransport_start (\<lambda>s. Inr url1) (\<lambda>s. s) server1))
     = [WriteHead 200 [(''Content-Type'', ''text/event-stream''),
                       (''Cache-Control'', ''no-cache, no-transform''),
                       (''Connection'', ''keep-alive'')],
        Write (''event: endpoint'' @ [nl]
               @ ''data: /messages?a=1&sessionId=1b4e28ba-2fa1-41d2-883f-0016d3cca427#top''
               @ [nl, nl])]"
    using start_writes_one_endpoint_event
      [where t = server1 and newURL = "\<lambda>s. Inr url1" and u = url1 and enc = "\<lambda>s. s"
         and u' = "url1\<lparr> searchParams :=
                      searchParams_set ''sessionId'' (sessionId server1) (searchParams url1) \<rparr>"
         and randomUUID = "Some ''1b4e28ba-2fa1-41d2-883f-0016d3cca427''" and rand = "\<lambda>i. 0"
         and ep = "''/messages?a=1&sessionId=old#top''" and has_on = True and opts = None
         and uuid = "''1b4e28ba-2fa1-41d2-883f-0016d3cca427''" and rand' = "\<lambda>i. 0"]
    by (simp add: server1_def SSEServerTransport_new_def generateSessionId_def url1_def
          search_def)
  have h1: "\<not> sseResponse server2"
    by (simp add: server2_def SSEServerTransport_new_def)
  have h2: "(\<lambda>s. Inr url0) (endpoint server2) = Inr url0"
    by simp
  note T = start_writes_one_endpoint_event
      [OF h1 h2 refl, where enc = "\<lambda>s. s" and randomUUID = None and rand = draws0
         and ep = "''/messages''" and has_on = True and opts = None
         and uuid = "[]" and rand' = draws0 and ?'m = nat]
  have ops: "res_ops (snd (SSEServerTransport_start (\<lambda>s. Inr url0) (\<lambda>s. s) server2))
           = res_ops server2 @
             [WriteHead 200 [(''Content-Type'', ''text/event-stream''),
                             (''Cache-Control'', ''no-cache, no-transform''),
                             (''Connection'', ''keep-alive'')],
              Write (''event: endpoint'' @ [nl] @ ''data: ''
                     @ pathname url0
                     @ search (\<lambda>s. s) (url0\<lparr> searchParams :=
                          searchParams_set ''sessionId'' (sessionId server2) (searchParams url0) \<rparr>)
                     @ hash url0 @ [nl, nl])]"
    by (rule T [THEN conjunct2, THEN conjunct1])
  have minted: "sessionId server2 = generateSessionId None draws0"
    unfolding server2_def
    by (rule T [THEN conjunct2, THEN conjunct2, THEN conjunct2, THEN conjunct2, THEN conjunct1])
  have "generateSessionId None draws0 =
            map (\<lambda>i. toString16 (draws0 i)) [0..<8] @ ''-''
            @ map (\<lambda>i. toString16 (draws0 i)) [8..<12] @ ''-4''
            @ map (\<lambda>i. toString16 (draws0 i)) [12..<15] @ ''-''
            @ [toString16 ((draws0 15 AND 0x3) OR 0x8)]
            @ map (\<lambda>i. toString16 (draws0 i)) [16..<19] @ ''-''
            @ map (\<lambda>i. toString16 (draws0 i)) [19..<31]"
    by (rule T [THEN conjunct2, THEN conjunct2, THEN conjunct2, THEN conjunct2, THEN conjunct2,
                THEN conjunct2, THEN conjunct1])
  then have id2: "generateSessionId None draws0 = ''01234567-89ab-4cde-b012-3456789abcde''"
    by (simp add: draws0_def toString16_def upt_rec)
  have two: "res_ops (snd (SSEServerTransport_start (\<lambda>s. Inr url0) (\<lambda>s. s) server2))
     = [WriteHead 200 [(''Content-Type'', ''text/event-stream''),
                       (''Cache-Control'', ''no-cache, no-transform''),
                       (''Connection'', ''keep-alive'')],
        Write (''event: endpoint'' @ [nl]
               @ ''data: /messages?sessionId=01234567-89ab-4cde-b012-3456789abcde''
               @ [nl, nl])]"
    unfolding ops minted id2
    by (simp add: server2_def SSEServerTransport_new_def url0_def search_def)
  from one two show ?thesis by simp
qed

section \<open>The size limit of inbound bodies\<close>

lemma utf8_size_replicate: "utf8_size (replicate n u) = n * utf8_unit_size u"
  by (induction n) (simp_all add: utf8_size_def)

text \<open>A Node request is cut off as soon as its chunks exceed the limit in bytes; a body that
  is accepted holds at most that many bytes.\<close>

lemma read_chunks_bound:
  "read_chunks evs (length (concat cs)) cs = Some (Inr chunks) \<Longrightarrow>
   length (concat cs) \<le> MAXIMUM_MESSAGE_SIZE \<Longrightarrow>
   length (concat chunks) \<le> MAXIMUM_MESSAGE_SIZE"
proof (induction evs arbitrary: cs)
  case Nil
  then show ?case by simp
next
  case (Cons ev evs)
  show ?case
  proof (cases ev)
    case (Data chunk)
    with Cons.prems have le: "length (concat cs) + length chunk \<le> MAXIMUM_MESSAGE_SIZE"
      and rc: "read_chunks evs (length (concat (cs @ [chunk]))) (cs @ [chunk]) = Some (Inr chunks)"
      by (auto split: if_splits)
    from Cons.IH [OF rc] le show ?thesis by simp
  next
    case EndOfBody
    with Cons.prems show ?thesis by simp
  next
    case (BodyError e)
    with Cons.prems show ?thesis by simp
  qed
qed

lemma read_body_bound:
  assumes "read_body C req None = Some (Inr body)"
  shows "(\<forall>s. body_source req = FetchText (Inr s) \<longrightarrow> length s \<le> MAXIMUM_MESSAGE_SIZE)
       \<and> (\<forall>evs chunks. body_source req = NodeStream evs \<and> read_chunks evs 0 [] = Some (Inr chunks)
             \<longrightarrow> length (concat chunks) \<le> MAXIMUM_MESSAGE_SIZE)"
proof -
  have "length (concat chunks) \<le> MAXIMUM_MESSAGE_SIZE"
    if "read_chunks evs 0 [] = Some (Inr chunks)" for evs chunks
    using read_chunks_bound [of evs "[]" chunks] that by simp
  moreover have "length s \<le> MAXIMUM_MESSAGE_SIZE" if "body_source req = FetchText (Inr s)" for s
    using assms that
    by (auto simp: read_body_def split: sum.splits if_splits)
  ultimately show ?thesis by blast
qed

lemma read_chunks_too_large:
  "n \<le> MAXIMUM_MESSAGE_SIZE \<Longrightarrow> MAXIMUM_MESSAGE_SIZE < n + length (concat cs) \<Longrightarrow>
   read_chunks (map Data cs @ evs) n acc = Some (Inl (Error ''Request body too large''))"
proof (induction cs arbitrary: n acc)
  case Nil
  then show ?case by simp
next
  case (Cons c cs)
  show ?case
  proof (cases "MAXIMUM_MESSAGE_SIZE < n + length c")
    case True
    then show ?thesis by simp
  next
    case False
    with Cons.prems Cons.IH [of "n + length c" "acc @ [c]"] show ?thesis
      by (simp add: add.assoc)
  qed
qed

text \<open>Where the size that the code measures exceeds the limit (code units of the text of a
  Fetch request, bytes of the chunks of a Node request), the answer is 400, the error goes to
  \<open>onerror\<close> and nothing is delivered.\<close>

lemma oversized_body_rejected:
  assumes "sseResponse t" and "validateRequestHeaders (options t) (headers req) = None"
    and "(\<exists>s. body_source req = FetchText (Inr s) \<and> MAXIMUM_MESSAGE_SIZE < length s)
       \<or> (\<exists>cs evs. body_source req = NodeStream (map Data cs @ evs)
              \<and> MAXIMUM_MESSAGE_SIZE < length (concat cs))"
  shows "\<exists>e. handlePostMessage C t req None
               = (Some (400, StringOf e), None, t\<lparr> srv_calls := srv_calls t @ [OnError e] \<rparr>)"
proof -
  have "\<exists>e. read_body C req None = Some (Inl e)"
    using assms(3) read_chunks_too_large [of 0 _ _ "[]"]
    by (auto simp: read_body_def split: sum.splits)
  then show ?thesis
    using assms(1,2) by (auto simp: handlePostMessage_def)
qed

lemma fetch_body_accepted:
  assumes "sseResponse t" and "validateRequestHeaders (options t) (headers req) = None"
    and "contentType_parse C (case getHeader (headers req) ''content-type'' of None \<Rightarrow> [] | Some v \<Rightarrow> v)
           = Inr (''application/json'', cs)"
    and "body_source req = FetchText (Inr s)" and "length s \<le> MAXIMUM_MESSAGE_SIZE"
    and "JSON_parse C s = Inr j" and "schema_parse C j = Inr m"
  shows "handlePostMessage C t req None
           = (Some (202, Text ''Accepted''), None, t\<lparr> srv_calls := srv_calls t @ [OnMessage m] \<rparr>)"
  using assms by (simp add: handlePostMessage_def read_body_def handleMessage_def)

text \<open>
  C9. A body of more than 4 MiB is answered 400 and never reaches \<open>onmessage\<close>. The limit is
  documented in bytes, and the Node branch counts the bytes of the chunks. The Fetch branch
  compares \<open>bodyText.length\<close>, the number of UTF-16 code units, with the limit: a body of
  4200000 bytes whose text has 1400000 code units passes the check, is delivered to
  \<open>onmessage\<close> and is answered 202.
\<close>

theorem fetch_body_over_4MiB_accepted:
  "MAXIMUM_MESSAGE_SIZE < utf8_size big_body
   \<and> handlePostMessage collab0 server0 (request0 ''https://a'' (FetchText (Inr big_body))) None
       = (Some (202, Text ''Accepted''), None, server0\<lparr> srv_calls := [OnMessage 1400000] \<rparr>)"
proof -
  have "utf8_unit_size 0x20AC = 3" by (simp add: utf8_unit_size_def)
  then have big: "MAXIMUM_MESSAGE_SIZE < utf8_size big_body"
    by (simp add: big_body_def utf8_size_replicate MAXIMUM_MESSAGE_SIZE_def)
  have "handlePostMessage collab0 server0 (request0 ''https://a'' (FetchText (Inr big_body))) None
       = (Some (202, Text ''Accepted''), None,
          server0\<lparr> srv_calls := srv_calls server0 @ [OnMessage 1400000] \<rparr>)"
  proof (rule fetch_body_accepted)
    show "sseResponse server0" by (simp add: server0_simps)
    show "validateRequestHeaders (options server0)
            (headers (request0 ''https://a'' (FetchText (Inr big_body)))) = None"
      by (simp add: validateRequestHeaders_def server0_simps options0_def request0_simps
            not_allowed_def)
    show "contentType_parse collab0
            (case getHeader (headers (request0 ''https://a'' (FetchText (Inr big_body))))
                    ''content-type'' of None \<Rightarrow> [] | Some v \<Rightarrow> v)
          = Inr (''application/json'', None)"
      by (simp add: request0_simps collab0_def)
    show "body_source (request0 ''https://a'' (FetchText (Inr big_body))) = FetchText (Inr big_body)"
      by (simp add: request0_simps)
    show "length big_body \<le> MAXIMUM_MESSAGE_SIZE"
      by (simp add: big_body_def MAXIMUM_MESSAGE_SIZE_def)
    show "JSON_parse collab0 big_body = Inr 1400000"
      by (simp add: collab0_def big_body_def)
    show "schema_parse collab0 1400000 = Inr 1400000"
      by (simp add: collab0_def)
  qed
  with big show ?thesis by (simp add: server0_simps)
qed

end
